theory Spec2Isabelle
  imports Complex_Main
begin

section \<open>Data model\<close>

text \<open>
  The network of \<^verbatim>\<open>dbn.inl\<close> is a tuple of layers.  The numeric type \<^verbatim>\<open>weight\<close> is
  modelled by the reals (the orchestrator only copies, compares and fills values; it does no
  arithmetic on them), a vector (\<^verbatim>\<open>etl::dyn_vector\<close>, \<^verbatim>\<open>input_one_t\<close>,
  \<^verbatim>\<open>output_one_t\<close>) by a list of weights, a container of vectors by a list of vectors and
  a binary stream by the list of bytes written to it or still to be read from it.
\<close>

type_synonym weight = real
type_synonym vec = "weight list"
type_synonym bytes = "nat list"

text \<open>
  A layer is used by the network only through its capability interface.  The operations
  are the members the source calls; they live in headers outside \<^verbatim>\<open>dbn.inl\<close> and are
  therefore fields of the record, applied to the mutable state \<open>state\<close> of the layer (its
  weights, biases and training bookkeeping).  An operation that fills an output buffer
  passed by reference returns the new content of that buffer.

  \<^item> \<open>is_pooling_layer\<close>, \<open>pretrain_last\<close>: \<^verbatim>\<open>layer_traits<Layer>::is_pooling_layer()\<close>,
    \<^verbatim>\<open>layer_traits<Layer>::pretrain_last()\<close>;
  \<^item> \<open>l_input_size\<close>, \<open>l_output_size\<close>: \<^verbatim>\<open>dll::input_size(layer)\<close>, \<^verbatim>\<open>dll::output_size(layer)\<close>
    (also \<^verbatim>\<open>layer_traits<Layer>::output_size()\<close> and the static member
    \<^verbatim>\<open>output_size()\<close> of the layer type);
  \<^item> \<open>get_batch_size\<close>: \<^verbatim>\<open>get_batch_size(rbm)\<close>;
  \<^item> \<open>convert_input\<close>, \<open>convert_sample\<close>: conversion of a range of raw samples, of one
    raw sample;
  \<^item> \<open>l_store\<close>, \<open>l_load\<close>: \<^verbatim>\<open>layer.store(os)\<close> gives the bytes appended to the stream,
    \<^verbatim>\<open>layer.load(is)\<close> the new state and the rest of the stream;
  \<^item> \<open>train\<close>: \<^verbatim>\<open>rbm.train(input, max_epochs)\<close>;
  \<^item> \<open>activate_one\<close>: \<^verbatim>\<open>rbm.activate_one(input, h_a)\<close> and
    \<^verbatim>\<open>rbm.activate_one(input, h_a, h_s)\<close>, whose second output \<^verbatim>\<open>h_s\<close> is never read
    by the network;
  \<^item> \<open>activate_many\<close>: \<^verbatim>\<open>rbm.activate_many(input, h_a, h_s)\<close>, of which only
    \<^verbatim>\<open>h_a\<close> is read;
  \<^item> \<open>activate_hidden\<close>: \<^verbatim>\<open>rbm.activate_hidden(h_a, h_s, v_a, v_s)\<close> gives \<open>(h_a, h_s)\<close>;
  \<^item> \<open>activate_visible\<close>: \<^verbatim>\<open>rbm.activate_visible(h_a, h_s, v_a, v_s)\<close> gives \<open>v_a\<close>
    (\<^verbatim>\<open>v_s\<close> is never read);
  \<^item> \<open>init_training\<close>, \<open>init_epoch\<close>, \<open>train_sub\<close>, \<open>finalize_epoch\<close>,
    \<open>finalize_training\<close>: the members of \<^verbatim>\<open>rbm_trainer\<close> called by the batch mode.  The
    state they work on is the layer together with the local trainer objects;
    \<open>new_context\<close> is the construction of a fresh \<^verbatim>\<open>rbm_training_context\<close>.
\<close>

record 'p layer =
  is_pooling_layer :: bool
  pretrain_last :: bool
  l_input_size :: nat
  l_output_size :: nat
  get_batch_size :: nat
  convert_input :: "vec list \<Rightarrow> vec list"
  convert_sample :: "vec \<Rightarrow> vec"
  l_store :: "'p \<Rightarrow> bytes"
  l_load :: "'p \<Rightarrow> bytes \<Rightarrow> 'p \<times> bytes"
  train :: "'p \<Rightarrow> vec list \<Rightarrow> nat \<Rightarrow> 'p"
  activate_one :: "'p \<Rightarrow> vec \<Rightarrow> vec"
  activate_many :: "'p \<Rightarrow> vec list \<Rightarrow> vec list"
  activate_hidden :: "'p \<Rightarrow> vec \<Rightarrow> vec \<Rightarrow> vec \<times> vec"
  activate_visible :: "'p \<Rightarrow> vec \<Rightarrow> vec \<Rightarrow> vec"
  init_training :: "'p \<Rightarrow> vec list \<Rightarrow> 'p"
  new_context :: "'p \<Rightarrow> 'p"
  init_epoch :: "'p \<Rightarrow> 'p"
  train_sub :: "'p \<Rightarrow> vec list \<Rightarrow> 'p"
  finalize_epoch :: "'p \<Rightarrow> nat \<Rightarrow> 'p"
  finalize_training :: "'p \<Rightarrow> 'p"
  state :: 'p

text \<open>The static description \<^verbatim>\<open>Desc\<close> of a network and its traits.\<close>

record desc =
  BatchSize :: nat
  save_memory :: bool
  concatenate :: bool
  scale :: bool

text \<open>
  The shape contract of a layer: the activation written for an input has the width of the
  layer's output, the reconstruction has the width of its input.
\<close>

definition layer_shape :: "'p layer \<Rightarrow> bool" where
  "layer_shape l \<longleftrightarrow>
     (\<forall>p v. length (activate_one l p v) = l_output_size l) \<and>
     (\<forall>p vs. length (activate_many l p vs) = length vs) \<and>
     (\<forall>p vs. \<forall>a \<in> set (activate_many l p vs). length a = l_output_size l) \<and>
     (\<forall>p v s. length (fst (activate_hidden l p v s)) = l_output_size l) \<and>
     (\<forall>p a s. length (activate_visible l p a s) = l_input_size l)"

section \<open>Forward activation\<close>

text \<open>
  \<^verbatim>\<open>activation_probabilities<I, S>(input, result)\<close>: the template recursion from layer
  \<open>I\<close> up to layer \<open>S - 1\<close>; at \<open>I = S\<close> the result is left as it is.
\<close>

function activation_probabilities_from ::
  "nat \<Rightarrow> nat \<Rightarrow> 'p layer list \<Rightarrow> vec \<Rightarrow> vec \<Rightarrow> vec" where
  "activation_probabilities_from I S net input result =
     (if I < S then
        (let rbm = net ! I in
         if I < S - 1 then
           (let next_a = activate_one rbm (state rbm) input
            in activation_probabilities_from (I + 1) S net next_a result)
         else activate_one rbm (state rbm) input)
      else result)"
  by pat_completeness auto
termination
  by (relation "measure (\<lambda>(I, S, net, input, result). S - I)") auto

declare activation_probabilities_from.simps [simp del]

text \<open>
  Modelled from the spec: \<^verbatim>\<open>prepare_one_output(is_last, labels)\<close> and
  \<^verbatim>\<open>prepare_one_input()\<close> of the layer headers allocate one output buffer (enlarged by
  the label count when the next layer is the last one) and one input buffer, and
  \<^verbatim>\<open>prepare_output(n, is_last, labels)\<close> allocates \<open>n\<close> output buffers.
\<close>

definition prepare_one_output :: "'p layer \<Rightarrow> bool \<Rightarrow> nat \<Rightarrow> vec" where
  "prepare_one_output rbm is_last labels =
     replicate (l_output_size rbm + (if is_last then labels else 0)) 0"

definition prepare_one_input :: "'p layer \<Rightarrow> vec" where
  "prepare_one_input rbm = replicate (l_input_size rbm) 0"

definition prepare_output :: "'p layer \<Rightarrow> nat \<Rightarrow> bool \<Rightarrow> nat \<Rightarrow> vec list" where
  "prepare_output rbm n is_last labels = replicate n (prepare_one_output rbm is_last labels)"

text \<open>\<^verbatim>\<open>activation_probabilities(item_data, result)\<close> and \<^verbatim>\<open>activation_probabilities(item_data)\<close>.\<close>

definition activation_probabilities_into :: "'p layer list \<Rightarrow> vec \<Rightarrow> vec \<Rightarrow> vec" where
  "activation_probabilities_into net item_data result =
     (let data = convert_sample (net ! 0) item_data
      in activation_probabilities_from 0 (length net) net data result)"

definition activation_probabilities :: "'p layer list \<Rightarrow> vec \<Rightarrow> vec" where
  "activation_probabilities net item_data =
     (let result = prepare_one_output (net ! (length net - 1)) False 0
      in activation_probabilities_into net item_data result)"

text \<open>
  \<^verbatim>\<open>full_output_size()\<close> sums the output sizes of all layers.
\<close>

definition full_output_size :: "'p layer list \<Rightarrow> nat" where
  "full_output_size net = fold (\<lambda>rbm output. output + l_output_size rbm) net 0"

text \<open>
  The loop \<^verbatim>\<open>for(auto& value : next_a){ result[i++] = value; }\<close>.  A write past the end
  of \<open>result\<close> is undefined in the source; \<open>list_update\<close> ignores it.
\<close>

fun append_values :: "vec \<Rightarrow> nat \<Rightarrow> vec \<Rightarrow> nat \<times> vec" where
  "append_values [] i result = (i, result)"
| "append_values (v # next_a) i result = append_values next_a (i + 1) (result[i := v])"

text \<open>\<^verbatim>\<open>full_activation_probabilities<I>(input, i, result)\<close>, returning the new \<open>i\<close> and \<open>result\<close>.\<close>

function full_activation_probabilities_from ::
  "nat \<Rightarrow> 'p layer list \<Rightarrow> vec \<Rightarrow> nat \<Rightarrow> vec \<Rightarrow> nat \<times> vec" where
  "full_activation_probabilities_from I net input i result =
     (if I < length net then
        (let rbm = net ! I;
             next_a = activate_one rbm (state rbm) input;
             (i', result') = append_values next_a i result
         in full_activation_probabilities_from (I + 1) net next_a i' result')
      else (i, result))"
  by pat_completeness auto
termination
  by (relation "measure (\<lambda>(I, net, input, i, result). length net - I)") auto

declare full_activation_probabilities_from.simps [simp del]

definition full_activation_probabilities_into :: "'p layer list \<Rightarrow> vec \<Rightarrow> vec \<Rightarrow> vec" where
  "full_activation_probabilities_into net item_data result =
     (let data = convert_sample (net ! 0) item_data
      in snd (full_activation_probabilities_from 0 net data 0 result))"

definition full_activation_probabilities :: "'p layer list \<Rightarrow> vec \<Rightarrow> vec" where
  "full_activation_probabilities net item_data =
     (let result = replicate (full_output_size net) 0
      in full_activation_probabilities_into net item_data result)"

text \<open>
  Modelled from the C++ standard library: \<^verbatim>\<open>std::max_element(first, last)\<close> keeps the
  first position whose value no later value exceeds (a candidate is replaced only by a
  strictly greater value) and returns \<^verbatim>\<open>last\<close> on an empty range.  \<open>max_element\<close> is
  the distance of the returned position from \<^verbatim>\<open>first\<close>.
\<close>

fun max_element_loop :: "'a::linorder list \<Rightarrow> nat \<Rightarrow> nat \<Rightarrow> 'a \<Rightarrow> nat" where
  "max_element_loop [] i largest lv = largest"
| "max_element_loop (x # xs) i largest lv =
     (if lv < x then max_element_loop xs (i + 1) i x
      else max_element_loop xs (i + 1) largest lv)"

definition max_element :: "'a::linorder list \<Rightarrow> nat" where
  "max_element xs = (case xs of [] \<Rightarrow> 0 | x # ys \<Rightarrow> max_element_loop ys 1 0 x)"

text \<open>\<^verbatim>\<open>predict_label(result)\<close> and \<^verbatim>\<open>predict(item)\<close>.\<close>

definition predict_label :: "vec \<Rightarrow> nat" where
  "predict_label result = max_element result"

definition predict :: "'p layer list \<Rightarrow> vec \<Rightarrow> nat" where
  "predict net item = (let result = activation_probabilities net item in predict_label result)"

section \<open>Pretraining\<close>

text \<open>
  The watcher is a local object that receives the life-cycle events; the model keeps the
  list of the events it has received, oldest first.  \<open>Pretrain_layer I n\<close> is the call
  \<^verbatim>\<open>watcher.pretrain_layer<rbm_t>(*this, I, n)\<close>.  Console output is not modelled.
\<close>

datatype event = Pretraining_begin nat | Pretrain_layer nat nat | Pretraining_end

text \<open>
  \<^verbatim>\<open>train_next<I>\<close>: true below the last layer, \<^verbatim>\<open>pretrain_last()\<close> of the layer at the
  last layer, false above it.
\<close>

definition train_next :: "nat \<Rightarrow> 'p layer list \<Rightarrow> bool" where
  "train_next I net =
     (if I < length net - 1 then True
      else if I = length net - 1 then pretrain_last (net ! I)
      else False)"

text \<open>
  \<^verbatim>\<open>fast_distance(first, last)\<close>: the distance of the range when its iterators are
  random-access iterators, and 0 for every other iterator category.  The category is a
  property of the iterator type, given here by \<open>random_access\<close>.
\<close>

definition fast_distance :: "bool \<Rightarrow> 'a list \<Rightarrow> nat" where
  "fast_distance random_access input = (if random_access then length input else 0)"

text \<open>
  \<^verbatim>\<open>pretrain_layer<I>(first, last, watcher, max_epochs)\<close>, the full-materialization
  mode, on a range whose iterator category is \<open>random_access\<close>.  The watcher is told
  \<^verbatim>\<open>fast_distance(first, last)\<close>.  \<^verbatim>\<open>maybe_parallel_foreach_i\<close> writes the activation of
  sample \<open>i\<close> into \<^verbatim>\<open>next_a[i]\<close>: the map over the range.  The next layer is given
  \<^verbatim>\<open>next_a.begin()\<close> and \<^verbatim>\<open>next_a.end()\<close>: \<^verbatim>\<open>next_a\<close> is the container of
  \<^verbatim>\<open>prepare_output\<close>, a vector, whose iterators are random-access.
\<close>

function pretrain_layer ::
  "nat \<Rightarrow> 'p layer list \<Rightarrow> event list \<Rightarrow> bool \<Rightarrow> vec list \<Rightarrow> nat \<Rightarrow>
     'p layer list \<times> event list" where
  "pretrain_layer I net watcher random_access input max_epochs =
     (if I < length net then
        (let rbm = net ! I;
             watcher' = watcher @ [Pretrain_layer I (fast_distance random_access input)];
             rbm' = rbm\<lparr>state := train rbm (state rbm) input max_epochs\<rparr>;
             net' = net[I := rbm']
         in if train_next (I + 1) net' then
              (let next_a = map (activate_one rbm' (state rbm')) input
               in pretrain_layer (I + 1) net' watcher' True next_a max_epochs)
            else (net', watcher'))
      else (net, watcher))"
  by pat_completeness auto
termination
  by (relation "measure (\<lambda>(I, net, watcher, random_access, input, max_epochs). length net - I)")
     auto

declare pretrain_layer.simps [simp del]

text \<open>
  \<^verbatim>\<open>batch_layer_ignore<I>\<close>: false by the primary template, and for \<open>I < layers\<close> true
  when the layer is a pooling layer or is not to be pretrained as last layer.
\<close>

definition batch_layer_ignore :: "nat \<Rightarrow> 'p layer list \<Rightarrow> bool" where
  "batch_layer_ignore I net =
     (if I < length net then is_pooling_layer (net ! I) \<or> \<not> pretrain_last (net ! I)
      else False)"

text \<open>
  The loop over the big batches of one epoch for layer 0.  \<open>it\<close> is the range from the
  iterator \<^verbatim>\<open>it\<close> to \<^verbatim>\<open>end\<close>; the inner loop advances \<^verbatim>\<open>it\<close> by at most
  \<^verbatim>\<open>big_batch_size\<close> samples.  With \<^verbatim>\<open>big_batch_size = 0\<close> the iterator never moves and
  the loop does not end: the function is partial.
\<close>

partial_function (option) big_batches_0 ::
  "'p layer \<Rightarrow> nat \<Rightarrow> vec list \<Rightarrow> 'p \<Rightarrow> 'p option" where
  "big_batches_0 rbm big_batch_size it p =
     (if it = [] then Some p
      else
        (let batch = take big_batch_size it;
             it' = drop big_batch_size it;
             input = convert_input rbm batch
         in big_batches_0 rbm big_batch_size it' (train_sub rbm p input)))"

text \<open>
  The collection of a big batch for a layer \<open>I > 0\<close>: the activation of sample \<open>i\<close> of
  the batch through the layers \<open>0 .. I - 1\<close> is written into \<^verbatim>\<open>activated_input[i]\<close>.
\<close>

fun collect_batch :: "nat \<Rightarrow> 'p layer list \<Rightarrow> vec list \<Rightarrow> nat \<Rightarrow> vec list \<Rightarrow> vec list" where
  "collect_batch I net [] i activated_input = activated_input"
| "collect_batch I net (v # input) i activated_input =
     collect_batch I net input (i + 1)
       (activated_input[i := activation_probabilities_from 0 I net v (activated_input ! i)])"

text \<open>
  The loop over the big batches of one epoch for a layer \<open>I > 0\<close>.  The buffer
  \<^verbatim>\<open>activated_input\<close> is allocated once, before the first epoch, and the trainer is given
  the whole buffer after every batch.
\<close>

partial_function (option) big_batches ::
  "nat \<Rightarrow> 'p layer list \<Rightarrow> nat \<Rightarrow> vec list \<Rightarrow> 'p \<times> vec list \<Rightarrow> ('p \<times> vec list) option" where
  "big_batches I net big_batch_size it s =
     (if it = [] then Some s
      else
        (let batch = take big_batch_size it;
             it' = drop big_batch_size it;
             input = convert_input (net ! 0) batch;
             activated_input = collect_batch I net input 0 (snd s);
             p = train_sub (net ! I) (fst s) activated_input
         in big_batches I net big_batch_size it' (p, activated_input)))"

text \<open>The loops over the epochs, from \<open>epoch\<close> up to \<open>max_epochs\<close>.\<close>

function epochs_0 :: "'p layer \<Rightarrow> nat \<Rightarrow> vec list \<Rightarrow> nat \<Rightarrow> nat \<Rightarrow> 'p \<Rightarrow> 'p option" where
  "epochs_0 rbm big_batch_size data epoch max_epochs p =
     (if epoch < max_epochs then
        (case big_batches_0 rbm big_batch_size data (init_epoch rbm (new_context rbm p)) of
           None \<Rightarrow> None
         | Some p' \<Rightarrow>
             epochs_0 rbm big_batch_size data (epoch + 1) max_epochs (finalize_epoch rbm p' epoch))
      else Some p)"
  by pat_completeness auto
termination
  by (relation "measure (\<lambda>(rbm, big_batch_size, data, epoch, max_epochs, p). max_epochs - epoch)") auto

declare epochs_0.simps [simp del]

function epochs ::
  "nat \<Rightarrow> 'p layer list \<Rightarrow> nat \<Rightarrow> vec list \<Rightarrow> nat \<Rightarrow> nat \<Rightarrow> 'p \<times> vec list \<Rightarrow> ('p \<times> vec list) option" where
  "epochs I net big_batch_size data epoch max_epochs s =
     (if epoch < max_epochs then
        (case big_batches I net big_batch_size data
                (init_epoch (net ! I) (new_context (net ! I) (fst s)), snd s) of
           None \<Rightarrow> None
         | Some s' \<Rightarrow>
             epochs I net big_batch_size data (epoch + 1) max_epochs
               (finalize_epoch (net ! I) (fst s') epoch, snd s'))
      else Some s)"
  by pat_completeness auto
termination
  by (relation "measure (\<lambda>(I, net, big_batch_size, data, epoch, max_epochs, s). max_epochs - epoch)") auto

declare epochs.simps [simp del]

text \<open>
  The product of two \<^verbatim>\<open>std::size_t\<close> values, as in
  \<^verbatim>\<open>desc::BatchSize * get_batch_size(rbm)\<close>: unsigned arithmetic of 64 bits, which wraps
  around modulo \<open>2 ^ 64\<close>.
\<close>

definition size_t_mul :: "nat \<Rightarrow> nat \<Rightarrow> nat" where
  "size_t_mul a b = (a * b) mod 2 ^ 64"

text \<open>
  \<^verbatim>\<open>pretrain_layer_batch<I>(first, last, watcher, max_epochs)\<close>, the memory-saving mode.
  The four overloads are selected by \<open>I = 0\<close>, by \<^verbatim>\<open>batch_layer_ignore<I>\<close>, by
  \<open>0 < I < layers\<close> without ignore, and by \<open>I = layers\<close>.  (For \<open>I = 0\<close> with
  \<^verbatim>\<open>batch_layer_ignore<0>\<close> the first two are both viable and the source does not
  compile; the model takes the first.)  \<^verbatim>\<open>init_training\<close> receives the raw range in
  every layer; the construction of the trainer by \<^verbatim>\<open>get_trainer\<close> is part of it.
  \<^verbatim>\<open>big_batch_size\<close> is the wrapped product of \<^verbatim>\<open>desc::BatchSize\<close> and the batch size of
  the layer: when it wraps to 0 and the range is not empty, the loop over the big batches
  does not end.
\<close>

function pretrain_layer_batch ::
  "desc \<Rightarrow> nat \<Rightarrow> 'p layer list \<Rightarrow> event list \<Rightarrow> vec list \<Rightarrow> nat \<Rightarrow>
     ('p layer list \<times> event list) option" where
  "pretrain_layer_batch d I net watcher data max_epochs =
     (if I = 0 then
        (let rbm = net ! I;
             watcher' = watcher @ [Pretrain_layer I 0];
             p = init_training rbm (state rbm) data;
             big_batch_size = size_t_mul (BatchSize d) (get_batch_size rbm)
         in case epochs_0 rbm big_batch_size data 0 max_epochs p of
              None \<Rightarrow> None
            | Some p' \<Rightarrow>
                pretrain_layer_batch d (I + 1)
                  (net[I := rbm\<lparr>state := finalize_training rbm p'\<rparr>]) watcher' data max_epochs)
      else if batch_layer_ignore I net then
        pretrain_layer_batch d (I + 1) net watcher data max_epochs
      else if I < length net then
        (let rbm = net ! I;
             watcher' = watcher @ [Pretrain_layer I 0];
             p = init_training rbm (state rbm) data;
             big_batch_size = size_t_mul (BatchSize d) (get_batch_size rbm);
             activated_input = prepare_output (net ! (I - 1)) big_batch_size False 0
         in case epochs I net big_batch_size data 0 max_epochs (p, activated_input) of
              None \<Rightarrow> None
            | Some s \<Rightarrow>
                pretrain_layer_batch d (I + 1)
                  (net[I := rbm\<lparr>state := finalize_training rbm (fst s)\<rparr>]) watcher' data max_epochs)
      else Some (net, watcher))"
  by pat_completeness auto
termination
  by (relation "measure (\<lambda>(d, I, net, watcher, data, max_epochs). length net + 1 - I)")
     (auto simp: batch_layer_ignore_def split: if_splits)

declare pretrain_layer_batch.simps [simp del]

text \<open>
  \<^verbatim>\<open>input_converter\<close>: the range itself when the samples already have the input type
  of the layer (\<open>same_type\<close>), their conversion by the layer otherwise.
\<close>

definition input_converter :: "'p layer \<Rightarrow> bool \<Rightarrow> vec list \<Rightarrow> vec list" where
  "input_converter rbm same_type data = (if same_type then data else convert_input rbm data)"

text \<open>
  \<^verbatim>\<open>pretrain(first, last, max_epochs)\<close>.  \<open>random_access\<close> is the iterator category of
  the range of the converter, which the full-materialization mode hands to
  \<^verbatim>\<open>pretrain_layer<0>\<close>.
\<close>

definition pretrain ::
  "desc \<Rightarrow> bool \<Rightarrow> bool \<Rightarrow> 'p layer list \<Rightarrow> vec list \<Rightarrow> nat \<Rightarrow>
     ('p layer list \<times> event list) option" where
  "pretrain d same_type random_access net data max_epochs =
     (let watcher = [Pretraining_begin max_epochs] in
      if save_memory d then
        (case pretrain_layer_batch d 0 net watcher data max_epochs of
           None \<Rightarrow> None
         | Some (net', watcher') \<Rightarrow> Some (net', watcher' @ [Pretraining_end]))
      else
        (let converter = input_converter (net ! 0) same_type data;
             (net', watcher') = pretrain_layer 0 net watcher random_access converter max_epochs
         in Some (net', watcher' @ [Pretraining_end])))"

section \<open>Training with labels\<close>

text \<open>
  Modelled from the spec: \<^verbatim>\<open>cpp_assert(condition, message)\<close> of cpp_utils is a fatal
  assertion; a violated condition aborts the call at once with the message.
\<close>

datatype error = Assertion_failed string

definition cpp_assert :: "bool \<Rightarrow> string \<Rightarrow> error + 'a \<Rightarrow> error + 'a" where
  "cpp_assert condition message continue =
     (if condition then continue else Inl (Assertion_failed message))"

text \<open>
  The copy of the activations into the enlarged buffer,
  \<^verbatim>\<open>big_next_a[i][j] = next_a[i][j]\<close> for every \<open>i\<close> and \<open>j\<close> of \<^verbatim>\<open>next_a\<close>.
\<close>

definition copy_values :: "vec \<Rightarrow> vec \<Rightarrow> vec" where
  "copy_values next_a big_next_a =
     fold (\<lambda>j big. big[j := next_a ! j]) [0..<length next_a] big_next_a"

definition copy_activations :: "vec list \<Rightarrow> vec list \<Rightarrow> vec list" where
  "copy_activations next_a big_next_a =
     fold (\<lambda>i big. big[i := copy_values (next_a ! i) (big ! i)]) [0..<length next_a] big_next_a"

text \<open>
  The loop over the labels: sample \<open>i\<close> receives, behind the \<open>output_size\<close> activations,
  \<open>1.0\<close> in the slot of its label and \<open>0.0\<close> in the other slots.
\<close>

definition encode_label :: "nat \<Rightarrow> nat \<Rightarrow> nat \<Rightarrow> vec \<Rightarrow> vec" where
  "encode_label output_size labels label row =
     fold (\<lambda>l row. row[output_size + l := (if label = l then 1 else 0)]) [0..<labels] row"

fun encode_labels :: "nat \<Rightarrow> nat \<Rightarrow> nat list \<Rightarrow> nat \<Rightarrow> vec list \<Rightarrow> vec list" where
  "encode_labels output_size labels [] i big_next_a = big_next_a"
| "encode_labels output_size labels (label # lit) i big_next_a =
     encode_labels output_size labels lit (i + 1)
       (big_next_a[i := encode_label output_size labels label (big_next_a ! i)])"

text \<open>
  \<^verbatim>\<open>train_with_labels<I>(input, watcher, lit, lend, labels, max_epochs)\<close>.  \<open>lit\<close> is the
  range of the labels from \<^verbatim>\<open>lit\<close> to \<^verbatim>\<open>lend\<close>; after the loop over the labels it is
  empty.
\<close>

function train_with_labels_from ::
  "nat \<Rightarrow> 'p layer list \<Rightarrow> event list \<Rightarrow> vec list \<Rightarrow> nat list \<Rightarrow> nat \<Rightarrow> nat \<Rightarrow>
     'p layer list \<times> event list" where
  "train_with_labels_from I net watcher input lit labels max_epochs =
     (if I < length net then
        (let rbm = net ! I;
             watcher' = watcher @ [Pretrain_layer I (length input)];
             rbm' = rbm\<lparr>state := train rbm (state rbm) input max_epochs\<rparr>;
             net' = net[I := rbm']
         in if I < length net - 1 then
              (let is_last = (I = length net - 2);
                   next_a = activate_many rbm' (state rbm') input
               in if is_last then
                    (let big_next_a = prepare_output rbm' (length input) is_last labels;
                         big_next_a = copy_activations next_a big_next_a;
                         big_next_a = encode_labels (l_output_size rbm') labels lit 0 big_next_a
                     in train_with_labels_from (I + 1) net' watcher' big_next_a [] labels max_epochs)
                  else train_with_labels_from (I + 1) net' watcher' next_a lit labels max_epochs)
            else (net', watcher'))
      else (net, watcher))"
  by pat_completeness auto
termination
  by (relation "measure (\<lambda>(I, net, watcher, input, lit, labels, max_epochs). length net - I)") auto

declare train_with_labels_from.simps [simp del]

text \<open>
  \<^verbatim>\<open>train_with_labels(first, last, lfirst, llast, labels, max_epochs)\<close> and
  \<^verbatim>\<open>train_with_labels(training_data, training_labels, labels, max_epochs)\<close>.
\<close>

definition train_with_labels_range ::
  "'p layer list \<Rightarrow> vec list \<Rightarrow> nat list \<Rightarrow> nat \<Rightarrow> nat \<Rightarrow> error + 'p layer list \<times> event list" where
  "train_with_labels_range net samples lbls labels max_epochs =
     cpp_assert (length samples = length lbls)
       ''There must be the same number of values than labels''
    (cpp_assert (l_input_size (net ! (length net - 1)) = l_output_size (net ! (length net - 2)) + labels)
       ''There is no room for the labels units''
    (let watcher = [Pretraining_begin max_epochs];
         data = convert_input (net ! 0) samples;
         (net', watcher') = train_with_labels_from 0 net watcher data lbls labels max_epochs
     in Inr (net', watcher' @ [Pretraining_end])))"

definition train_with_labels ::
  "'p layer list \<Rightarrow> vec list \<Rightarrow> nat list \<Rightarrow> nat \<Rightarrow> nat \<Rightarrow> error + 'p layer list \<times> event list" where
  "train_with_labels net training_data training_labels labels max_epochs =
     cpp_assert (length training_data = length training_labels)
       ''There must be the same number of values than labels''
    (cpp_assert (l_input_size (net ! (length net - 1)) = l_output_size (net ! (length net - 2)) + labels)
       ''There is no room for the labels units''
    (train_with_labels_range net training_data training_labels labels max_epochs))"

section \<open>Prediction with labels\<close>

text \<open>
  \<^verbatim>\<open>std::fill(big_next_a.begin() + dll::output_size(rbm), big_next_a.end(), 0.1)\<close>.
\<close>

definition fill_from :: "nat \<Rightarrow> weight \<Rightarrow> vec \<Rightarrow> vec" where
  "fill_from n value big = take n big @ replicate (length big - n) value"

text \<open>
  \<^verbatim>\<open>predict_labels<I>(input, output, labels)\<close>, returning the new content of
  \<^verbatim>\<open>output\<close>.
\<close>

function predict_labels_from :: "nat \<Rightarrow> 'p layer list \<Rightarrow> vec \<Rightarrow> vec \<Rightarrow> nat \<Rightarrow> vec" where
  "predict_labels_from I net input output labels =
     (if I < length net then
        (let rbm = net ! I;
             (next_a, next_s) = activate_hidden rbm (state rbm) input input
         in if I = length net - 1 then
              (let output_a = activate_visible rbm (state rbm) next_a next_s
               in output_a)
            else
              (let is_last = (I = length net - 2)
               in if is_last then
                    (let big_next_a = prepare_one_output rbm is_last labels;
                         big_next_a = copy_values next_a big_next_a;
                         big_next_a = fill_from (l_output_size rbm) (0.1) big_next_a
                     in predict_labels_from (I + 1) net big_next_a output labels)
                  else predict_labels_from (I + 1) net next_a output labels))
      else output)"
  by pat_completeness auto
termination
  by (relation "measure (\<lambda>(I, net, input, output, labels). length net - I)") auto

declare predict_labels_from.simps [simp del]

text \<open>
  \<^verbatim>\<open>predict_labels(item_data, labels)\<close>.  The item is the sample itself, constructed as
  \<^verbatim>\<open>input_one_t\<close>.  The result is the distance from \<^verbatim>\<open>std::prev(output_a.end(), labels)\<close>
  to the maximum of the last \<open>labels\<close> entries.
\<close>

definition predict_labels :: "'p layer list \<Rightarrow> vec \<Rightarrow> nat \<Rightarrow> error + nat" where
  "predict_labels net item_data labels =
     cpp_assert (l_input_size (net ! (length net - 1)) = l_output_size (net ! (length net - 2)) + labels)
       ''There is no room for the labels units''
    (let item = item_data;
         output_a = prepare_one_input (net ! (length net - 1));
         output_a = predict_labels_from 0 net item output_a labels
     in Inr (max_element (drop (length output_a - labels) output_a)))"

section \<open>Persistence and the classifier\<close>

text \<open>
  The classifier library (\<^verbatim>\<open>svm::\<close>, \<^verbatim>\<open>svm_store\<close>, \<^verbatim>\<open>svm_load\<close>,
  \<^verbatim>\<open>default_svm_parameters\<close> of \<^verbatim>\<open>svm_common.hpp\<close>) is outside \<^verbatim>\<open>dbn.inl\<close>; its
  operations are the fields of a record.  \<open>svm_store\<close> gives the bytes written for the
  model and the loaded flag of the network, \<open>svm_load\<close> reads both back and gives the rest
  of the stream.  \<^verbatim>\<open>svm::rbf_grid_search\<close> and \<^verbatim>\<open>svm::make_quiet\<close> only print or silence
  output.
\<close>

record ('q, 'm, 'r) svm =
  svm_make_problem :: "nat list \<Rightarrow> vec list \<Rightarrow> bool \<Rightarrow> 'q"
  svm_check :: "'q \<Rightarrow> 'r \<Rightarrow> bool"
  svm_train_model :: "'q \<Rightarrow> 'r \<Rightarrow> 'm"
  default_svm_parameters :: 'r
  svm_store :: "'m \<Rightarrow> bool \<Rightarrow> bytes"
  svm_load :: "'m \<Rightarrow> bool \<Rightarrow> bytes \<Rightarrow> ('m \<times> bool) \<times> bytes"

text \<open>The network: the tuple of its layers and, with \<^verbatim>\<open>DLL_SVM_SUPPORT\<close>, the classifier state.\<close>

record ('p, 'q, 'm) dbn =
  tuples :: "'p layer list"
  svm_model :: 'm
  problem :: 'q
  svm_loaded :: bool

text \<open>\<^verbatim>\<open>store_layer\<close> and \<^verbatim>\<open>load_layer\<close>: nothing for a pooling layer.\<close>

definition store_layer :: "'p layer \<Rightarrow> bytes \<Rightarrow> bytes" where
  "store_layer layer os = (if is_pooling_layer layer then os else os @ l_store layer (state layer))"

definition load_layer :: "'p layer \<Rightarrow> bytes \<Rightarrow> 'p layer \<times> bytes" where
  "load_layer layer is =
     (if is_pooling_layer layer then (layer, is)
      else (let (p, is') = l_load layer (state layer) is in (layer\<lparr>state := p\<rparr>, is')))"

text \<open>
  \<^verbatim>\<open>store(os)\<close> and \<^verbatim>\<open>load(is)\<close>: \<^verbatim>\<open>cpp::for_each\<close> visits the layers in the order of
  the tuple.
\<close>

fun load_layers :: "'p layer list \<Rightarrow> bytes \<Rightarrow> 'p layer list \<times> bytes" where
  "load_layers [] is = ([], is)"
| "load_layers (layer # layers) is =
     (let (layer', is') = load_layer layer is;
          (layers', is'') = load_layers layers is'
      in (layer' # layers', is''))"

definition store :: "('q, 'm, 'r) svm \<Rightarrow> ('p, 'q, 'm) dbn \<Rightarrow> bytes \<Rightarrow> bytes" where
  "store lib dbn os =
     (let os = fold store_layer (tuples dbn) os
      in os @ svm_store lib (svm_model dbn) (svm_loaded dbn))"

definition load :: "('q, 'm, 'r) svm \<Rightarrow> ('p, 'q, 'm) dbn \<Rightarrow> bytes \<Rightarrow> ('p, 'q, 'm) dbn \<times> bytes" where
  "load lib dbn is =
     (let (layers', is') = load_layers (tuples dbn) is;
          ((model, loaded), is'') = svm_load lib (svm_model dbn) (svm_loaded dbn) is'
      in (dbn\<lparr>tuples := layers', svm_model := model, svm_loaded := loaded\<rparr>, is''))"

text \<open>
  Two layers have the same type when they differ at most in their state; two networks
  are identically shaped when their layers have pairwise the same type.
\<close>

definition same_layer_type :: "'p layer \<Rightarrow> 'p layer \<Rightarrow> bool" where
  "same_layer_type l l' \<longleftrightarrow> l'\<lparr>state := state l\<rparr> = l"

text \<open>
  \<^verbatim>\<open>add_activation_probabilities(result, sample)\<close> appends the features of one sample:
  the concatenated activations of all layers with \<^verbatim>\<open>concatenate\<close>, the activation of the
  last layer otherwise.
\<close>

definition add_activation_probabilities ::
  "desc \<Rightarrow> 'p layer list \<Rightarrow> vec list \<Rightarrow> vec \<Rightarrow> vec list" where
  "add_activation_probabilities d net result sample =
     (if concatenate d then
        result @ [full_activation_probabilities_into net sample (replicate (full_output_size net) 0)]
      else
        result @ [activation_probabilities_into net sample
                    (prepare_one_output (net ! (length net - 1)) False 0)])"

text \<open>\<^verbatim>\<open>make_problem(training_data, labels, scale)\<close> assigns the member \<^verbatim>\<open>problem\<close>.\<close>

definition make_problem ::
  "('q, 'm, 'r) svm \<Rightarrow> desc \<Rightarrow> ('p, 'q, 'm) dbn \<Rightarrow> vec list \<Rightarrow> nat list \<Rightarrow> bool \<Rightarrow> ('p, 'q, 'm) dbn" where
  "make_problem lib d dbn training_data labels scl =
     (let svm_samples = fold (\<lambda>sample result. add_activation_probabilities d (tuples dbn) result sample)
                          training_data []
      in dbn\<lparr>problem := svm_make_problem lib labels svm_samples scl\<rparr>)"

text \<open>
  \<^verbatim>\<open>svm_train(training_data, labels, parameters)\<close> and
  \<^verbatim>\<open>svm_grid_search(training_data, labels, n_fold, g)\<close>: the returned flag and the network
  after the call.  The overloads on iterator ranges have the same body.
\<close>

definition svm_train ::
  "('q, 'm, 'r) svm \<Rightarrow> desc \<Rightarrow> ('p, 'q, 'm) dbn \<Rightarrow> vec list \<Rightarrow> nat list \<Rightarrow> 'r \<Rightarrow>
     bool \<times> ('p, 'q, 'm) dbn" where
  "svm_train lib d dbn training_data labels parameters =
     (let dbn = make_problem lib d dbn training_data labels (scale d)
      in if \<not> svm_check lib (problem dbn) parameters then (False, dbn)
         else
           (let dbn = dbn\<lparr>svm_model := svm_train_model lib (problem dbn) parameters\<rparr>;
                dbn = dbn\<lparr>svm_loaded := True\<rparr>
            in (True, dbn)))"

definition svm_grid_search ::
  "('q, 'm, 'r) svm \<Rightarrow> desc \<Rightarrow> ('p, 'q, 'm) dbn \<Rightarrow> vec list \<Rightarrow> nat list \<Rightarrow>
     bool \<times> ('p, 'q, 'm) dbn" where
  "svm_grid_search lib d dbn training_data labels =
     (let dbn = make_problem lib d dbn training_data labels (scale d);
          parameters = default_svm_parameters lib
      in if \<not> svm_check lib (problem dbn) parameters then (False, dbn)
         else (True, dbn))"

section \<open>The learning rule of a layer\<close>

text \<open>
  Modelled from the spec: the training sequence of one layer on its whole input, as the
  batch mode runs it per epoch (a fresh context, \<^verbatim>\<open>init_epoch\<close>, \<^verbatim>\<open>train_sub\<close> on the
  input, \<^verbatim>\<open>finalize_epoch\<close>), from \<open>epoch\<close> up to \<open>max_epochs\<close>.  \<^verbatim>\<open>rbm.train\<close> of the
  full mode is outside \<^verbatim>\<open>dbn.inl\<close>; a layer has the same learning rule in both modes
  when its \<open>train\<close> is this sequence between \<^verbatim>\<open>init_training\<close> (whatever range of
  samples it is given) and \<^verbatim>\<open>finalize_training\<close>, and when training on a sequence is
  training on its parts one after the other.
\<close>

function trainer_epochs :: "'p layer \<Rightarrow> vec list \<Rightarrow> nat \<Rightarrow> nat \<Rightarrow> 'p \<Rightarrow> 'p" where
  "trainer_epochs rbm input epoch max_epochs p =
     (if epoch < max_epochs then
        trainer_epochs rbm input (epoch + 1) max_epochs
          (finalize_epoch rbm (train_sub rbm (init_epoch rbm (new_context rbm p)) input) epoch)
      else p)"
  by pat_completeness auto
termination
  by (relation "measure (\<lambda>(rbm, input, epoch, max_epochs, p). max_epochs - epoch)") auto

declare trainer_epochs.simps [simp del]

definition same_learning_rule :: "'p layer \<Rightarrow> bool" where
  "same_learning_rule rbm \<longleftrightarrow>
     (\<forall>p input samples max_epochs.
        train rbm p input max_epochs =
          finalize_training rbm
            (trainer_epochs rbm input 0 max_epochs (init_training rbm p samples))) \<and>
     (\<forall>p xs ys. train_sub rbm p (xs @ ys) = train_sub rbm (train_sub rbm p xs) ys) \<and>
     (\<forall>p. train_sub rbm p [] = p)"

text \<open>
  The networks on which the two pretraining modes are compared, for \<open>n\<close> samples: both
  modes train the same layers (\<^verbatim>\<open>train_next\<close> of the full mode and
  \<^verbatim>\<open>batch_layer_ignore\<close> of the batch mode agree above layer 0), every layer has the same
  learning rule in both modes, the big batches are not empty and, above layer 0, divide
  the samples without rest, and layer 0 converts a range of samples sample by sample.
\<close>

definition modes_comparable :: "desc \<Rightarrow> 'p layer list \<Rightarrow> nat \<Rightarrow> bool" where
  "modes_comparable d net n \<longleftrightarrow>
     net \<noteq> [] \<and>
     (\<forall>I. 0 < I \<and> I < length net \<longrightarrow> (train_next I net \<longleftrightarrow> \<not> batch_layer_ignore I net)) \<and>
     (\<forall>I < length net. same_learning_rule (net ! I)) \<and>
     (\<forall>I < length net. 0 < size_t_mul (BatchSize d) (get_batch_size (net ! I))) \<and>
     (\<forall>I. 0 < I \<and> I < length net \<longrightarrow> size_t_mul (BatchSize d) (get_batch_size (net ! I)) dvd n) \<and>
     (\<forall>xs. convert_input (net ! 0) xs = map (convert_sample (net ! 0)) xs)"

section \<open>Example layers\<close>

text \<open>
  A layer with \<open>m\<close> visible and \<open>n\<close> hidden units for the concrete instances below.  Its
  state is a counter of the samples it has been trained on; every hidden unit is the
  counter plus the sum of the input (without the counter in a pooling layer, which has
  no parameters), visible unit \<open>j\<close> is \<open>j\<close> times the sum of the hidden activation, and the
  state is stored in one byte.
\<close>

definition example_rbm :: "nat \<Rightarrow> nat \<Rightarrow> nat \<Rightarrow> bool \<Rightarrow> bool \<Rightarrow> nat \<Rightarrow> nat layer" where
  "example_rbm m n b pooling plast p0 =
     \<lparr> is_pooling_layer = pooling,
       pretrain_last = plast,
       l_input_size = m,
       l_output_size = n,
       get_batch_size = b,
       convert_input = (\<lambda>samples. samples),
       convert_sample = (\<lambda>sample. sample),
       l_store = (\<lambda>p. [p]),
       l_load = (\<lambda>p is. case is of [] \<Rightarrow> (p, []) | x # is' \<Rightarrow> (x, is')),
       train = (\<lambda>p input max_epochs. p + max_epochs * length input),
       activate_one = (\<lambda>p v. replicate n ((if pooling then 0 else real p) + sum_list v)),
       activate_many = (\<lambda>p vs. map (\<lambda>v. replicate n ((if pooling then 0 else real p) + sum_list v)) vs),
       activate_hidden = (\<lambda>p v s. (replicate n ((if pooling then 0 else real p) + sum_list v), replicate n 0)),
       activate_visible = (\<lambda>p a s. map (\<lambda>j. real j * sum_list a) [0..<m]),
       init_training = (\<lambda>p samples. p),
       new_context = (\<lambda>p. p),
       init_epoch = (\<lambda>p. p),
       train_sub = (\<lambda>p input. p + length input),
       finalize_epoch = (\<lambda>p epoch. p),
       finalize_training = (\<lambda>p. p),
       state = p0 \<rparr>"

text \<open>
  The same layer with a learning rule that looks at the values: training adds to the
  state, for every input vector, the integer part of the sum of its entries.
\<close>

definition example_sum_rbm :: "nat \<Rightarrow> nat \<Rightarrow> nat \<Rightarrow> bool \<Rightarrow> bool \<Rightarrow> nat \<Rightarrow> nat layer" where
  "example_sum_rbm m n b pooling plast p0 =
     (example_rbm m n b pooling plast p0)
       \<lparr> train := (\<lambda>p input max_epochs.
            p + max_epochs * sum_list (map (\<lambda>v. nat \<lfloor>sum_list v\<rfloor>) input)),
         train_sub := (\<lambda>p input. p + sum_list (map (\<lambda>v. nat \<lfloor>sum_list v\<rfloor>) input)) \<rparr>"

text \<open>
  A classifier library for the concrete instances: the problem is the list of labelled
  feature vectors, the parameter a number that passes the check when it is positive, the
  model a number, stored behind a byte that tells whether a model follows.
\<close>

definition example_svm :: "((nat \<times> vec) list, nat, nat) svm" where
  "example_svm =
     \<lparr> svm_make_problem = (\<lambda>labels samples scl. zip labels samples),
       svm_check = (\<lambda>q r. 0 < r),
       svm_train_model = (\<lambda>q r. length q + r),
       default_svm_parameters = 1,
       svm_store = (\<lambda>m loaded. if loaded then [1, m] else [0]),
       svm_load = (\<lambda>m loaded is.
          case is of
            [] \<Rightarrow> ((m, loaded), [])
          | x # is' \<Rightarrow>
              (if x = 0 then ((m, False), is')
               else (case is' of [] \<Rightarrow> ((m, loaded), []) | y # is'' \<Rightarrow> ((y, True), is'')))) \<rparr>"

section \<open>Properties\<close>

subsection \<open>The example layer\<close>

lemma example_rbm_fields:
  "is_pooling_layer (example_rbm m n b pooling plast p0) = pooling"
  "pretrain_last (example_rbm m n b pooling plast p0) = plast"
  "l_input_size (example_rbm m n b pooling plast p0) = m"
  "l_output_size (example_rbm m n b pooling plast p0) = n"
  "get_batch_size (example_rbm m n b pooling plast p0) = b"
  "convert_input (example_rbm m n b pooling plast p0) samples = samples"
  "convert_sample (example_rbm m n b pooling plast p0) sample = sample"
  "l_store (example_rbm m n b pooling plast p0) p = [p]"
  "l_load (example_rbm m n b pooling plast p0) p is = (case is of [] \<Rightarrow> (p, []) | x # is' \<Rightarrow> (x, is'))"
  "train (example_rbm m n b pooling plast p0) p input max_epochs = p + max_epochs * length input"
  "activate_one (example_rbm m n b pooling plast p0) p v =
     replicate n ((if pooling then 0 else real p) + sum_list v)"
  "activate_many (example_rbm m n b pooling plast p0) p vs =
     map (\<lambda>v. replicate n ((if pooling then 0 else real p) + sum_list v)) vs"
  "activate_hidden (example_rbm m n b pooling plast p0) p v s =
     (replicate n ((if pooling then 0 else real p) + sum_list v), replicate n 0)"
  "activate_visible (example_rbm m n b pooling plast p0) p a s = map (\<lambda>j. real j * sum_list a) [0..<m]"
  "init_training (example_rbm m n b pooling plast p0) p samples = p"
  "new_context (example_rbm m n b pooling plast p0) p = p"
  "init_epoch (example_rbm m n b pooling plast p0) p = p"
  "train_sub (example_rbm m n b pooling plast p0) p input = p + length input"
  "finalize_epoch (example_rbm m n b pooling plast p0) p epoch = p"
  "finalize_training (example_rbm m n b pooling plast p0) p = p"
  "state (example_rbm m n b pooling plast p0) = p0"
  by (simp_all add: example_rbm_def)

lemma example_rbm_state_update:
  "(example_rbm m n b pooling plast p0)\<lparr>state := p\<rparr> = example_rbm m n b pooling plast p"
  by (simp add: example_rbm_def)

lemma example_rbm_shape: "layer_shape (example_rbm m n b pooling plast p0)"
  by (simp add: layer_shape_def example_rbm_def)

lemma example_svm_fields:
  "svm_make_problem example_svm labels samples scl = zip labels samples"
  "svm_check example_svm q r = (0 < r)"
  "svm_train_model example_svm q r = length q + r"
  "default_svm_parameters example_svm = 1"
  "svm_store example_svm m loaded = (if loaded then [1, m] else [0])"
  "svm_load example_svm m loaded [] = ((m, loaded), [])"
  "svm_load example_svm m loaded (x # is') =
     (if x = 0 then ((m, False), is')
      else (case is' of [] \<Rightarrow> ((m, loaded), []) | y # is'' \<Rightarrow> ((y, True), is'')))"
  by (simp_all add: example_svm_def)

subsection \<open>The forward chain\<close>

lemma activation_probabilities_from_last:
  "activation_probabilities_from I (Suc I) net input result =
     activate_one (net ! I) (state (net ! I)) input"
  by (subst activation_probabilities_from.simps) (simp add: Let_def)

lemma activation_probabilities_from_step:
  "I < J \<Longrightarrow> activation_probabilities_from I (Suc J) net input result =
     activation_probabilities_from (Suc I) (Suc J) net (activate_one (net ! I) (state (net ! I)) input) result"
  by (subst activation_probabilities_from.simps) (simp add: Let_def)

lemma activation_probabilities_from_result:
  "I < S \<Longrightarrow> activation_probabilities_from I S net input r =
     activation_probabilities_from I S net input r'"
proof (induction I S net input r rule: activation_probabilities_from.induct)
  case (1 I S net input result)
  show ?case
  proof (cases "I < S - 1")
    case True
    then have "activation_probabilities_from (I + 1) S net (activate_one (net ! I) (state (net ! I)) input) result =
      activation_probabilities_from (I + 1) S net (activate_one (net ! I) (state (net ! I)) input) r'"
      using "1.prems" by (intro "1.IH") auto
    then show ?thesis
      using True "1.prems"
      by (subst activation_probabilities_from.simps, subst (2) activation_probabilities_from.simps)
         (simp add: Let_def)
  next
    case False
    then show ?thesis
      using "1.prems"
      by (subst activation_probabilities_from.simps, subst (2) activation_probabilities_from.simps)
         (simp add: Let_def)
  qed
qed

lemma activation_probabilities_from_length:
  "\<forall>l \<in> set net. layer_shape l \<Longrightarrow> I < S \<Longrightarrow> S \<le> length net \<Longrightarrow>
    length (activation_probabilities_from I S net input r) = l_output_size (net ! (S - 1))"
proof (induction I S net input r rule: activation_probabilities_from.induct)
  case (1 I S net input result)
  show ?case
  proof (cases "I < S - 1")
    case True
    then show ?thesis
      using "1.prems" "1.IH"[OF _ refl _ refl]
      by (subst activation_probabilities_from.simps) (simp add: Let_def)
  next
    case False
    then have "I = S - 1" using "1.prems" by simp
    moreover have "layer_shape (net ! I)" using "1.prems" by simp
    ultimately show ?thesis
      using "1.prems"
      by (subst activation_probabilities_from.simps) (simp add: Let_def layer_shape_def)
  qed
qed


lemma activation_probabilities_from_cong:
  "\<forall>I < S. activate_one (net' ! I) (state (net' ! I)) = activate_one (net ! I) (state (net ! I)) \<Longrightarrow>
   activation_probabilities_from I S net' input r = activation_probabilities_from I S net input r"
proof (induction I S net input r rule: activation_probabilities_from.induct)
  case (1 I S net input result)
  show ?case
  proof (cases "I < S")
    case True
    then have a: "activate_one (net' ! I) (state (net' ! I)) input =
        activate_one (net ! I) (state (net ! I)) input"
      using "1.prems" by simp
    show ?thesis
    proof (cases "I < S - 1")
      case True
      have "activation_probabilities_from (I + 1) S net'
          (activate_one (net ! I) (state (net ! I)) input) result =
        activation_probabilities_from (I + 1) S net
          (activate_one (net ! I) (state (net ! I)) input) result"
        using \<open>I < S\<close> True "1.prems" by (intro "1.IH") auto
      then show ?thesis
        using \<open>I < S\<close> True a
        by (subst activation_probabilities_from.simps, subst (2) activation_probabilities_from.simps)
           (simp add: Let_def)
    next
      case False
      then show ?thesis
        using \<open>I < S\<close> a
        by (subst activation_probabilities_from.simps, subst (2) activation_probabilities_from.simps)
           (simp add: Let_def)
    qed
  next
    case False
    then show ?thesis
      by (subst activation_probabilities_from.simps, subst (2) activation_probabilities_from.simps)
         simp
  qed
qed

lemma prepare_output_state [simp]:
  "prepare_output (l\<lparr>state := q\<rparr>) n is_last labels = prepare_output l n is_last labels"
  by (simp add: prepare_output_def prepare_one_output_def)

subsection \<open>Sizes\<close>

lemma fast_distance_simps [simp]:
  "fast_distance True input = length input" "fast_distance False input = 0"
  by (simp_all add: fast_distance_def)

lemma size_t_mul_small: "a * b < 2 ^ 64 \<Longrightarrow> size_t_mul a b = a * b"
  by (simp add: size_t_mul_def)

lemma size_t_mul_wraps: "size_t_mul (2 ^ 32) (2 ^ 32) = 0"
  by (simp add: size_t_mul_def)

subsection \<open>The first maximum\<close>

lemma max_element_loop_props:
  "largest < i \<Longrightarrow>
   (max_element_loop xs i largest lv = largest \<and> (\<forall>x \<in> set xs. x \<le> lv)) \<or>
   (i \<le> max_element_loop xs i largest lv \<and> max_element_loop xs i largest lv < i + length xs \<and>
    lv < xs ! (max_element_loop xs i largest lv - i) \<and>
    (\<forall>k < max_element_loop xs i largest lv - i. xs ! k < xs ! (max_element_loop xs i largest lv - i)) \<and>
    (\<forall>x \<in> set xs. x \<le> xs ! (max_element_loop xs i largest lv - i)))"
proof (induction xs arbitrary: i largest lv)
  case Nil
  then show ?case by simp
next
  case (Cons x xs)
  show ?case
  proof (cases "lv < x")
    case True
    define r where "r = max_element_loop xs (Suc i) i x"
    have "(r = i \<and> (\<forall>y \<in> set xs. y \<le> x)) \<or>
       (Suc i \<le> r \<and> r < Suc i + length xs \<and> x < xs ! (r - Suc i) \<and>
        (\<forall>k < r - Suc i. xs ! k < xs ! (r - Suc i)) \<and>
        (\<forall>y \<in> set xs. y \<le> xs ! (r - Suc i)))"
      unfolding r_def using Cons.IH[of i "Suc i" x] by simp
    then show ?thesis
    proof
      assume "r = i \<and> (\<forall>y \<in> set xs. y \<le> x)"
      with True show ?thesis by (auto simp: r_def[symmetric])
    next
      assume a: "Suc i \<le> r \<and> r < Suc i + length xs \<and> x < xs ! (r - Suc i) \<and>
        (\<forall>k < r - Suc i. xs ! k < xs ! (r - Suc i)) \<and>
        (\<forall>y \<in> set xs. y \<le> xs ! (r - Suc i))"
      then have r: "Suc i \<le> r" "r < Suc i + length xs" "x < xs ! (r - Suc i)"
        "\<forall>k < r - Suc i. xs ! k < xs ! (r - Suc i)" "\<forall>y \<in> set xs. y \<le> xs ! (r - Suc i)"
        by auto
      have e: "r - i = Suc (r - Suc i)" using r(1) by simp
      have "\<forall>k < r - i. (x # xs) ! k < (x # xs) ! (r - i)"
        using r by (auto simp: e nth_Cons split: nat.splits)
      moreover have "lv < xs ! (r - Suc i)" using True r(3) by (rule less_trans)
      moreover have "x \<le> xs ! (r - Suc i)" using r(3) by simp
      ultimately show ?thesis using True r by (simp add: r_def[symmetric] e)
    qed
  next
    case False
    define r where "r = max_element_loop xs (Suc i) largest lv"
    have "(r = largest \<and> (\<forall>y \<in> set xs. y \<le> lv)) \<or>
       (Suc i \<le> r \<and> r < Suc i + length xs \<and> lv < xs ! (r - Suc i) \<and>
        (\<forall>k < r - Suc i. xs ! k < xs ! (r - Suc i)) \<and>
        (\<forall>y \<in> set xs. y \<le> xs ! (r - Suc i)))"
      unfolding r_def using Cons.IH[of largest "Suc i" lv] Cons.prems by simp
    then show ?thesis
    proof
      assume "r = largest \<and> (\<forall>y \<in> set xs. y \<le> lv)"
      with False show ?thesis by (auto simp: r_def[symmetric])
    next
      assume a: "Suc i \<le> r \<and> r < Suc i + length xs \<and> lv < xs ! (r - Suc i) \<and>
        (\<forall>k < r - Suc i. xs ! k < xs ! (r - Suc i)) \<and>
        (\<forall>y \<in> set xs. y \<le> xs ! (r - Suc i))"
      then have r: "Suc i \<le> r" "r < Suc i + length xs" "lv < xs ! (r - Suc i)"
        "\<forall>k < r - Suc i. xs ! k < xs ! (r - Suc i)" "\<forall>y \<in> set xs. y \<le> xs ! (r - Suc i)"
        by auto
      have e: "r - i = Suc (r - Suc i)" using r(1) by simp
      have x: "x < xs ! (r - Suc i)" using False r(3) by simp
      have "\<forall>k < r - i. (x # xs) ! k < (x # xs) ! (r - i)"
        using r x by (auto simp: e nth_Cons split: nat.splits)
      moreover have "x \<le> xs ! (r - Suc i)" using x by simp
      ultimately show ?thesis using False r by (simp add: r_def[symmetric] e)
    qed
  qed
qed

lemma max_element_props:
  assumes "xs \<noteq> []"
  shows "max_element xs < length xs"
    and "\<forall>x \<in> set xs. x \<le> xs ! max_element xs"
    and "\<forall>j < max_element xs. xs ! j < xs ! max_element xs"
proof -
  from assms obtain x ys where xs: "xs = x # ys" by (cases xs) auto
  define r where "r = max_element_loop ys 1 0 x"
  have m: "max_element (x # ys) = r" by (simp add: max_element_def r_def)
  have d: "(r = 0 \<and> (\<forall>y \<in> set ys. y \<le> x)) \<or>
    (1 \<le> r \<and> r < 1 + length ys \<and> x < ys ! (r - 1) \<and>
     (\<forall>k < r - 1. ys ! k < ys ! (r - 1)) \<and> (\<forall>y \<in> set ys. y \<le> ys ! (r - 1)))"
    using max_element_loop_props[of 0 1 ys x] by (simp add: r_def)
  show "max_element xs < length xs" using d by (auto simp: xs m)
  show "\<forall>x \<in> set xs. x \<le> xs ! max_element xs"
    using d by (auto simp: xs m nth_Cons split: nat.splits)
  show "\<forall>j < max_element xs. xs ! j < xs ! max_element xs"
    using d by (auto simp: xs m nth_Cons split: nat.splits)
qed


lemma example_activation:
  "activation_probabilities
     [example_rbm 2 2 1 False True 0, example_rbm 2 3 1 False True 1] [1, 2] = [7, 7, 7]"
  by (simp add: activation_probabilities_def activation_probabilities_into_def example_rbm_fields
      activation_probabilities_from_last activation_probabilities_from_step numeral_eq_Suc)

subsection \<open>The loops of the batch mode\<close>







lemma batch_layer_ignore_update:
  "batch_layer_ignore J (net[I := (net ! I)\<lparr>state := p\<rparr>]) = batch_layer_ignore J net"
  by (cases "J = I") (auto simp: batch_layer_ignore_def)

lemma pretrain_layer_batch_skip:
  "0 < I \<Longrightarrow> batch_layer_ignore I net \<Longrightarrow>
   pretrain_layer_batch d I net watcher data max_epochs =
     pretrain_layer_batch d (I + 1) net watcher data max_epochs"
  by (subst pretrain_layer_batch.simps) simp

lemma pretrain_layer_batch_stop:
  "0 < I \<Longrightarrow> length net \<le> I \<Longrightarrow>
   pretrain_layer_batch d I net watcher data max_epochs = Some (net, watcher)"
  by (subst pretrain_layer_batch.simps) (simp add: batch_layer_ignore_def)

lemma pretrain_layer_batch_train:
  "0 < I \<Longrightarrow> I < length net \<Longrightarrow> \<not> batch_layer_ignore I net \<Longrightarrow>
   pretrain_layer_batch d I net watcher data max_epochs =
     (case epochs I net (size_t_mul (BatchSize d) (get_batch_size (net ! I))) data 0 max_epochs
             (init_training (net ! I) (state (net ! I)) data,
              prepare_output (net ! (I - 1)) (size_t_mul (BatchSize d) (get_batch_size (net ! I))) False 0) of
        None \<Rightarrow> None
      | Some s \<Rightarrow>
          pretrain_layer_batch d (I + 1)
            (net[I := (net ! I)\<lparr>state := finalize_training (net ! I) (fst s)\<rparr>])
            (watcher @ [Pretrain_layer I 0]) data max_epochs)"
  by (subst pretrain_layer_batch.simps) (simp add: Let_def)

lemma pretrain_layer_batch_first:
  "pretrain_layer_batch d 0 net watcher data max_epochs =
     (case epochs_0 (net ! 0) (size_t_mul (BatchSize d) (get_batch_size (net ! 0))) data 0 max_epochs
             (init_training (net ! 0) (state (net ! 0)) data) of
        None \<Rightarrow> None
      | Some p' \<Rightarrow>
          pretrain_layer_batch d 1
            (net[0 := (net ! 0)\<lparr>state := finalize_training (net ! 0) p'\<rparr>])
            (watcher @ [Pretrain_layer 0 0]) data max_epochs)"
  by (subst pretrain_layer_batch.simps) (simp add: Let_def cong: option.case_cong)

lemma big_batches_0_eq:
  assumes "\<forall>p xs ys. train_sub rbm p (xs @ ys) = train_sub rbm (train_sub rbm p xs) ys"
    and "\<forall>p. train_sub rbm p [] = p"
    and "\<forall>xs. convert_input rbm xs = map (convert_sample rbm) xs"
    and "0 < n"
  shows "big_batches_0 rbm n it p = Some (train_sub rbm p (convert_input rbm it))"
proof (induction "length it" arbitrary: it p rule: less_induct)
  case less
  show ?case
  proof (cases "it = []")
    case True
    then show ?thesis using assms(2,3) by (subst big_batches_0.simps) simp
  next
    case False
    then have "length (drop n it) < length it" using assms(4) by simp
    from less.hyps[OF this]
    have "big_batches_0 rbm n (drop n it) (train_sub rbm p (convert_input rbm (take n it))) =
        Some (train_sub rbm (train_sub rbm p (convert_input rbm (take n it)))
                (convert_input rbm (drop n it)))" .
    also have "train_sub rbm (train_sub rbm p (convert_input rbm (take n it)))
                (convert_input rbm (drop n it)) =
        train_sub rbm p (convert_input rbm (take n it) @ convert_input rbm (drop n it))"
      using assms(1) by simp
    also have "convert_input rbm (take n it) @ convert_input rbm (drop n it) = convert_input rbm it"
      using assms(3) by (simp add: take_map[symmetric] drop_map[symmetric])
    finally show ?thesis using False by (subst big_batches_0.simps) (simp add: Let_def)
  qed
qed

lemma epochs_0_eq:
  assumes "\<forall>p xs ys. train_sub rbm p (xs @ ys) = train_sub rbm (train_sub rbm p xs) ys"
    and "\<forall>p. train_sub rbm p [] = p"
    and "\<forall>xs. convert_input rbm xs = map (convert_sample rbm) xs"
    and "0 < n"
  shows "epochs_0 rbm n data epoch max_epochs p =
     Some (trainer_epochs rbm (convert_input rbm data) epoch max_epochs p)"
  using assms
proof (induction rbm n data epoch max_epochs p rule: epochs_0.induct)
  case (1 rbm n data epoch max_epochs p)
  show ?case
  proof (cases "epoch < max_epochs")
    case True
    have b: "big_batches_0 rbm n data (init_epoch rbm (new_context rbm p)) =
        Some (train_sub rbm (init_epoch rbm (new_context rbm p)) (convert_input rbm data))"
      using "1.prems" by (intro big_batches_0_eq) auto
    show ?thesis
      using True b "1.IH"[OF True b "1.prems"]
      by (subst epochs_0.simps, subst trainer_epochs.simps) simp
  next
    case False
    then show ?thesis by (subst epochs_0.simps, subst trainer_epochs.simps) simp
  qed
qed

lemma collect_batch_eq:
  "0 < I \<Longrightarrow> i + length input \<le> length buf \<Longrightarrow>
   collect_batch I net input i buf =
     take i buf @ map (\<lambda>v. activation_probabilities_from 0 I net v []) input @
     drop (i + length input) buf"
proof (induction input arbitrary: i buf)
  case Nil
  then show ?case by simp
next
  case (Cons v input)
  define a where "a = activation_probabilities_from 0 I net v (buf ! i)"
  have a': "a = activation_probabilities_from 0 I net v []"
    unfolding a_def using Cons.prems(1) by (rule activation_probabilities_from_result)
  have i: "i < length buf" using Cons.prems by simp
  have "collect_batch I net (v # input) i buf = collect_batch I net input (Suc i) (buf[i := a])"
    by (simp add: a_def)
  also have "\<dots> = take (Suc i) (buf[i := a]) @
      map (\<lambda>v. activation_probabilities_from 0 I net v []) input @
      drop (Suc i + length input) (buf[i := a])"
    using Cons.prems by (intro Cons.IH) auto
  also have "take (Suc i) (buf[i := a]) = take i buf @ [a]"
    using i by (simp add: take_Suc_conv_app_nth)
  also have "drop (Suc i + length input) (buf[i := a]) = drop (Suc i + length input) buf"
    by simp
  finally show ?case by (simp add: a')
qed

lemma big_batches_eq:
  assumes "\<forall>p xs ys. train_sub (net ! I) p (xs @ ys) = train_sub (net ! I) (train_sub (net ! I) p xs) ys"
    and "\<forall>p. train_sub (net ! I) p [] = p"
    and "\<forall>xs. convert_input (net ! 0) xs = map (convert_sample (net ! 0)) xs"
    and "0 < n" and "0 < I"
  shows "n dvd length it \<Longrightarrow> length buf = n \<Longrightarrow>
    \<exists>buf'. big_batches I net n it (p, buf) =
       Some (train_sub (net ! I) p
               (map (\<lambda>v. activation_probabilities_from 0 I net v []) (convert_input (net ! 0) it)),
             buf') \<and> length buf' = n"
proof (induction "length it" arbitrary: it p buf rule: less_induct)
  case less
  show ?case
  proof (cases "it = []")
    case True
    then show ?thesis using assms(2,3) less.prems by (subst big_batches.simps) simp
  next
    case False
    have ge: "n \<le> length it" using less.prems(1) False by (auto dest: dvd_imp_le)
    define batch where "batch = take n it"
    define input where "input = convert_input (net ! 0) batch"
    define acts where "acts = map (\<lambda>v. activation_probabilities_from 0 I net v []) input"
    have li: "length input = n" using ge assms(3) by (simp add: input_def batch_def)
    have c: "collect_batch I net input 0 buf = acts"
      using collect_batch_eq[OF assms(5), of 0 input buf net] li less.prems(2)
      by (simp add: acts_def)
    have la: "length acts = n" by (simp add: acts_def li)
    have sh: "length (drop n it) < length it" using False assms(4) by simp
    have dv: "n dvd length (drop n it)" using less.prems(1) ge by (simp add: dvd_diff_nat)
    from less.hyps[OF sh dv la, of "train_sub (net ! I) p acts"]
    obtain buf' where b: "big_batches I net n (drop n it) (train_sub (net ! I) p acts, acts) =
        Some (train_sub (net ! I) (train_sub (net ! I) p acts)
                (map (\<lambda>v. activation_probabilities_from 0 I net v [])
                   (convert_input (net ! 0) (drop n it))), buf')" "length buf' = n"
      by blast
    have "acts @ map (\<lambda>v. activation_probabilities_from 0 I net v [])
                   (convert_input (net ! 0) (drop n it)) =
        map (\<lambda>v. activation_probabilities_from 0 I net v []) (convert_input (net ! 0) it)"
      using assms(3)
      by (simp add: acts_def input_def batch_def take_map[symmetric] drop_map[symmetric]
          map_append[symmetric] del: map_append)
    then have "train_sub (net ! I) (train_sub (net ! I) p acts)
                (map (\<lambda>v. activation_probabilities_from 0 I net v [])
                   (convert_input (net ! 0) (drop n it))) =
        train_sub (net ! I) p
          (map (\<lambda>v. activation_probabilities_from 0 I net v []) (convert_input (net ! 0) it))"
      using assms(1) by metis
    then show ?thesis
      using False b c
      by (subst big_batches.simps)
         (simp add: Let_def batch_def[symmetric] input_def[symmetric])
  qed
qed

lemma epochs_eq:
  assumes "\<forall>p xs ys. train_sub (net ! I) p (xs @ ys) = train_sub (net ! I) (train_sub (net ! I) p xs) ys"
    and "\<forall>p. train_sub (net ! I) p [] = p"
    and "\<forall>xs. convert_input (net ! 0) xs = map (convert_sample (net ! 0)) xs"
    and "0 < n" and "0 < I" and "n dvd length data"
  shows "length (snd s) = n \<Longrightarrow>
    \<exists>buf'. epochs I net n data epoch max_epochs s =
       Some (trainer_epochs (net ! I)
               (map (\<lambda>v. activation_probabilities_from 0 I net v []) (convert_input (net ! 0) data))
               epoch max_epochs (fst s), buf') \<and> length buf' = n"
  using assms
proof (induction I net n data epoch max_epochs s rule: epochs.induct)
  case (1 I net n data epoch max_epochs s)
  define acts where
    "acts = map (\<lambda>v. activation_probabilities_from 0 I net v []) (convert_input (net ! 0) data)"
  show ?case
  proof (cases "epoch < max_epochs")
    case True
    obtain buf' where b: "big_batches I net n data
          (init_epoch (net ! I) (new_context (net ! I) (fst s)), snd s) =
        Some (train_sub (net ! I) (init_epoch (net ! I) (new_context (net ! I) (fst s))) acts, buf')"
        "length buf' = n"
      unfolding acts_def
      using big_batches_eq[OF "1.prems"(2,3,4,5,6) "1.prems"(7) "1.prems"(1)] by blast
    have "\<exists>buf''. epochs I net n data (epoch + 1) max_epochs
          (finalize_epoch (net ! I)
             (fst (train_sub (net ! I) (init_epoch (net ! I) (new_context (net ! I) (fst s))) acts, buf'))
             epoch,
           snd (train_sub (net ! I) (init_epoch (net ! I) (new_context (net ! I) (fst s))) acts, buf')) =
        Some (trainer_epochs (net ! I) acts (epoch + 1) max_epochs
                (fst (finalize_epoch (net ! I)
                   (fst (train_sub (net ! I) (init_epoch (net ! I) (new_context (net ! I) (fst s))) acts, buf'))
                   epoch,
                 snd (train_sub (net ! I) (init_epoch (net ! I) (new_context (net ! I) (fst s))) acts, buf'))),
              buf'') \<and> length buf'' = n"
      unfolding acts_def
      using b(2) "1.prems"(2-) by (intro "1.IH"[OF True b(1)[unfolded acts_def]]) simp_all
    then show ?thesis
      using True b(1)
      by (subst epochs.simps, subst trainer_epochs.simps) (simp add: acts_def[symmetric])
  next
    case False
    then show ?thesis
      using "1.prems"(1)
      by (subst epochs.simps, subst trainer_epochs.simps) (cases s, simp)
  qed
qed

lemma example_trainer_epochs:
  "trainer_epochs (example_rbm m n b pooling plast p0) input epoch max_epochs p =
     p + (max_epochs - epoch) * length input"
proof (induction "max_epochs - epoch" arbitrary: epoch p)
  case 0
  then show ?case by (subst trainer_epochs.simps) simp
next
  case (Suc k)
  then have "trainer_epochs (example_rbm m n b pooling plast p0) input (epoch + 1) max_epochs
      (p + length input) = p + length input + (max_epochs - (epoch + 1)) * length input"
    by (intro Suc.hyps(1)) simp
  moreover have "max_epochs - epoch = Suc (max_epochs - (epoch + 1))" using Suc.hyps(2) by simp
  moreover have "epoch < max_epochs" using Suc.hyps(2) by simp
  ultimately show ?case
    by (subst trainer_epochs.simps) (simp add: example_rbm_fields)
qed

lemma example_rbm_learning_rule: "same_learning_rule (example_rbm m n b pooling plast p0)"
  by (simp add: same_learning_rule_def example_trainer_epochs example_rbm_fields)

lemma example_rbm_convert:
  "convert_input (example_rbm m n b pooling plast p0) xs =
     map (convert_sample (example_rbm m n b pooling plast p0)) xs"
  by (simp add: example_rbm_def)

lemma example_rbm_convert_map:
  "map (convert_sample (example_rbm m n b pooling plast p0)) xs = xs"
  by (simp add: example_rbm_def)

lemma example_sum_rbm_fields:
  "is_pooling_layer (example_sum_rbm m n b pooling plast p0) = pooling"
  "pretrain_last (example_sum_rbm m n b pooling plast p0) = plast"
  "get_batch_size (example_sum_rbm m n b pooling plast p0) = b"
  "convert_input (example_sum_rbm m n b pooling plast p0) samples = samples"
  "map (convert_sample (example_sum_rbm m n b pooling plast p0)) samples = samples"
  "train (example_sum_rbm m n b pooling plast p0) p input max_epochs =
     p + max_epochs * sum_list (map (\<lambda>v. nat \<lfloor>sum_list v\<rfloor>) input)"
  "activate_one (example_sum_rbm m n b pooling plast p0) p v =
     replicate n ((if pooling then 0 else real p) + sum_list v)"
  "init_training (example_sum_rbm m n b pooling plast p0) p samples = p"
  "new_context (example_sum_rbm m n b pooling plast p0) p = p"
  "init_epoch (example_sum_rbm m n b pooling plast p0) p = p"
  "train_sub (example_sum_rbm m n b pooling plast p0) p input =
     p + sum_list (map (\<lambda>v. nat \<lfloor>sum_list v\<rfloor>) input)"
  "finalize_epoch (example_sum_rbm m n b pooling plast p0) p epoch = p"
  "finalize_training (example_sum_rbm m n b pooling plast p0) p = p"
  "state (example_sum_rbm m n b pooling plast p0) = p0"
  by (simp_all add: example_sum_rbm_def example_rbm_def)

lemma example_sum_rbm_state_update:
  "(example_sum_rbm m n b pooling plast p0)\<lparr>state := p\<rparr> = example_sum_rbm m n b pooling plast p"
  by (simp add: example_sum_rbm_def example_rbm_def)

lemma example_sum_trainer_epochs:
  "trainer_epochs (example_sum_rbm m n b pooling plast p0) input epoch max_epochs p =
     p + (max_epochs - epoch) * sum_list (map (\<lambda>v. nat \<lfloor>sum_list v\<rfloor>) input)"
proof (induction "max_epochs - epoch" arbitrary: epoch p)
  case 0
  then show ?case by (subst trainer_epochs.simps) simp
next
  case (Suc k)
  define t where "t = sum_list (map (\<lambda>v. nat \<lfloor>sum_list v\<rfloor>) input)"
  have "trainer_epochs (example_sum_rbm m n b pooling plast p0) input (epoch + 1) max_epochs
      (p + t) = p + t + (max_epochs - (epoch + 1)) * t"
    unfolding t_def using Suc.hyps(2) by (intro Suc.hyps(1)) simp
  moreover have "max_epochs - epoch = Suc (max_epochs - (epoch + 1))" using Suc.hyps(2) by simp
  moreover have "epoch < max_epochs" using Suc.hyps(2) by simp
  ultimately show ?case
    by (subst trainer_epochs.simps) (simp add: example_sum_rbm_fields t_def)
qed

lemma example_sum_rbm_learning_rule:
  "same_learning_rule (example_sum_rbm m n b pooling plast p0)"
  by (simp add: same_learning_rule_def example_sum_trainer_epochs example_sum_rbm_fields)





lemma size_t_mul_example [simp]:
  "size_t_mul (Suc 0) (Suc 0) = Suc 0" "size_t_mul (Suc 0) 2 = 2" "size_t_mul 1 1 = 1"
  "size_t_mul 1 2 = 2" "size_t_mul (Suc 0) (Suc (Suc 0)) = Suc (Suc 0)"
  by (simp_all add: size_t_mul_def)

text \<open>
  With a big batch size of 0 the iterator of the loop over the big batches never moves:
  on a range that is not empty the loop does not end, and neither does the batch mode
  when the product of \<^verbatim>\<open>desc::BatchSize\<close> and the batch size of layer 0 wraps to 0.
\<close>

lemma big_batches_0_zero_aux:
  assumes "big_batches_0 rbm n it p = Some y"
  shows "n = 0 \<longrightarrow> it = []"
proof (rule big_batches_0.raw_induct[where P = "\<lambda>rbm n it p y. n = 0 \<longrightarrow> it = []", OF _ assms])
  fix f :: "'a layer \<Rightarrow> nat \<Rightarrow> vec list \<Rightarrow> 'a \<Rightarrow> 'a option" and rbm n it p y
  assume ih: "\<And>rbm n it p y. f rbm n it p = Some y \<Longrightarrow> n = 0 \<longrightarrow> it = []"
    and st: "(if it = [] then Some p
      else
        (let batch = take n it;
             it' = drop n it;
             input = convert_input rbm batch
         in f rbm n it' (train_sub rbm p input))) = Some y"
  show "n = 0 \<longrightarrow> it = []"
  proof (cases "it = []")
    case True
    then show ?thesis by simp
  next
    case False
    then have "f rbm n (drop n it) (train_sub rbm p (convert_input rbm (take n it))) = Some y"
      using st by (simp add: Let_def)
    from ih[OF this] show ?thesis by simp
  qed
qed

lemma big_batches_0_zero: "it \<noteq> [] \<Longrightarrow> big_batches_0 rbm 0 it p = None"
  using big_batches_0_zero_aux[of rbm 0 it p] by (cases "big_batches_0 rbm 0 it p") auto

lemma epochs_0_zero:
  "data \<noteq> [] \<Longrightarrow> 0 < max_epochs \<Longrightarrow> epochs_0 rbm 0 data 0 max_epochs p = None"
  by (subst epochs_0.simps) (simp add: big_batches_0_zero)

lemma pretrain_layer_batch_wraps:
  "size_t_mul (BatchSize d) (get_batch_size (net ! 0)) = 0 \<Longrightarrow> data \<noteq> [] \<Longrightarrow> 0 < max_epochs \<Longrightarrow>
   pretrain_layer_batch d 0 net watcher data max_epochs = None"
  by (simp add: pretrain_layer_batch_first epochs_0_zero)

lemma pretrain_layer_batch_wraps_example:
  "pretrain_layer_batch \<lparr>BatchSize = 2 ^ 32, save_memory = True, concatenate = False, scale = False\<rparr> 0
     [example_rbm 2 2 (2 ^ 32) False True 0] [] [[1, 2]] 1 = None"
  by (rule pretrain_layer_batch_wraps) (simp_all add: example_rbm_fields size_t_mul_def)

subsection \<open>Pretraining in batches\<close>






subsection \<open>Label augmentation\<close>

lemma fold_copy_prefix:
  "k \<le> length src \<Longrightarrow> k \<le> length big \<Longrightarrow>
   fold (\<lambda>j big. big[j := src ! j]) [0..<k] big = take k src @ drop k big"
proof (induction k)
  case 0
  then show ?case by simp
next
  case (Suc k)
  then have "fold (\<lambda>j big. big[j := src ! j]) [0..<Suc k] big = (take k src @ drop k big)[k := src ! k]"
    by simp
  also have "\<dots> = take k src @ (drop k big)[0 := src ! k]"
    using Suc.prems by (simp add: list_update_append)
  also have "(drop k big)[0 := src ! k] = src ! k # drop (Suc k) big"
    using Suc.prems by (cases "drop k big") (auto simp: drop_Suc drop_tl)
  also have "take k src @ src ! k # drop (Suc k) big = take (Suc k) src @ drop (Suc k) big"
    using Suc.prems by (simp add: take_Suc_conv_app_nth)
  finally show ?case .
qed

lemma copy_values_eq:
  "length next_a \<le> length big \<Longrightarrow> copy_values next_a big = next_a @ drop (length next_a) big"
  by (simp add: copy_values_def fold_copy_prefix)

lemma fold_copy_rows:
  "k \<le> length next_a \<Longrightarrow> k \<le> length big \<Longrightarrow>
   fold (\<lambda>i big. big[i := copy_values (next_a ! i) (big ! i)]) [0..<k] big =
     map (\<lambda>i. copy_values (next_a ! i) (big ! i)) [0..<k] @ drop k big"
proof (induction k)
  case 0
  then show ?case by simp
next
  case (Suc k)
  define copied where "copied = map (\<lambda>i. copy_values (next_a ! i) (big ! i)) [0..<k]"
  have ld: "length copied = k" by (simp add: copied_def)
  have "fold (\<lambda>i big. big[i := copy_values (next_a ! i) (big ! i)]) [0..<Suc k] big =
      (copied @ drop k big)[k := copy_values (next_a ! k) ((copied @ drop k big) ! k)]"
    using Suc by (simp add: copied_def)
  also have "(copied @ drop k big) ! k = big ! k"
    using Suc.prems ld by (simp add: nth_append)
  also have "(copied @ drop k big)[k := copy_values (next_a ! k) (big ! k)] =
      copied @ (drop k big)[0 := copy_values (next_a ! k) (big ! k)]"
    using ld by (simp add: list_update_append)
  also have "(drop k big)[0 := copy_values (next_a ! k) (big ! k)] =
      copy_values (next_a ! k) (big ! k) # drop (Suc k) big"
    using Suc.prems by (cases "drop k big") (auto simp: drop_Suc drop_tl)
  finally show ?case by (simp add: copied_def)
qed

lemma copy_activations_eq:
  "length next_a \<le> length big \<Longrightarrow>
   copy_activations next_a big =
     map (\<lambda>i. copy_values (next_a ! i) (big ! i)) [0..<length next_a] @ drop (length next_a) big"
  by (simp add: copy_activations_def fold_copy_rows)

lemma fold_encode_label:
  "output_size + k \<le> length row \<Longrightarrow>
   fold (\<lambda>l row. row[output_size + l := (if label = l then 1 else 0)]) [0..<k] row =
     take output_size row @ map (\<lambda>l. if label = l then 1 else (0::real)) [0..<k] @
     drop (output_size + k) row"
proof (induction k)
  case 0
  then show ?case by simp
next
  case (Suc k)
  define hot where "hot = map (\<lambda>l. if label = l then 1 else (0::real)) [0..<k]"
  have lh: "length hot = k" by (simp add: hot_def)
  have "fold (\<lambda>l row. row[output_size + l := (if label = l then 1 else 0)]) [0..<Suc k] row =
      (take output_size row @ hot @ drop (output_size + k) row)
        [output_size + k := (if label = k then 1 else 0)]"
    using Suc by (simp add: hot_def)
  also have "\<dots> = take output_size row @ hot @
      (drop (output_size + k) row)[0 := (if label = k then 1 else 0)]"
    using Suc.prems lh by (simp add: list_update_append)
  also have "(drop (output_size + k) row)[0 := (if label = k then 1 else 0)] =
      (if label = k then 1 else 0) # drop (output_size + Suc k) row"
    using Suc.prems by (cases "drop (output_size + k) row") (auto simp: drop_Suc drop_tl)
  finally show ?case by (simp add: hot_def)
qed

lemma encode_label_eq:
  "output_size + labels \<le> length row \<Longrightarrow>
   encode_label output_size labels label row =
     take output_size row @ map (\<lambda>l. if label = l then 1 else 0) [0..<labels] @
     drop (output_size + labels) row"
  by (simp add: encode_label_def fold_encode_label)

lemma encode_labels_length:
  "length (encode_labels output_size labels lit i big) = length big"
  by (induction lit arbitrary: i big) auto

lemma encode_labels_nth:
  "i + length lit \<le> length big \<Longrightarrow> k < length lit \<Longrightarrow>
   encode_labels output_size labels lit i big ! (i + k) =
     encode_label output_size labels (lit ! k) (big ! (i + k))"
proof (induction lit arbitrary: i big k)
  case Nil
  then show ?case by simp
next
  case (Cons label lit)
  have below: "encode_labels output_size labels lit' j big' ! m = big' ! m"
    if "m < j" for lit' j big' m
    using that by (induction lit' arbitrary: j big') auto
  show ?case
  proof (cases k)
    case 0
    then show ?thesis using Cons.prems by (simp add: below)
  next
    case (Suc k')
    have "encode_labels output_size labels (label # lit) i big ! (i + k) =
        encode_labels output_size labels lit (Suc i)
          (big[i := encode_label output_size labels label (big ! i)]) ! (Suc i + k')"
      by (simp add: Suc)
    also have "\<dots> = encode_label output_size labels (lit ! k')
        ((big[i := encode_label output_size labels label (big ! i)]) ! (Suc i + k'))"
      using Cons.prems Suc by (intro Cons.IH) auto
    finally show ?thesis by (simp add: Suc)
  qed
qed

lemma layer_shape_state [simp]: "layer_shape (l\<lparr>state := p\<rparr>) = layer_shape l"
  by (simp add: layer_shape_def)

lemma train_with_labels_from_last:
  assumes "net \<noteq> []" and "I = length net - 1"
  shows "train_with_labels_from I net watcher input lit labels max_epochs =
     (net[I := (net ! I)\<lparr>state := train (net ! I) (state (net ! I)) input max_epochs\<rparr>],
      watcher @ [Pretrain_layer I (length input)])"
proof -
  have c: "I < length net" "(I < length net - 1) = False" using assms by auto
  show ?thesis
    by (subst train_with_labels_from.simps) (simp only: Let_def c if_True if_False)
qed

text \<open>
  Claim C3: in \<^verbatim>\<open>train_with_labels\<close>, at the second-to-last layer \<open>I\<close> (whose layer
  respects the shape contract, with as many labels as samples) the last layer is trained
  on an enlarged buffer: the call returns the network in which layer \<open>I\<close> has been trained
  on the input and the last layer has been trained on the buffer, and the watcher has been
  told of both.  The buffer has one row per sample, each of width \<^verbatim>\<open>output_size(I)\<close> plus
  \<open>labels\<close>; the first \<^verbatim>\<open>output_size(I)\<close> entries of row \<open>i\<close> are the activation of layer
  \<open>I\<close> for sample \<open>i\<close> and the other \<open>labels\<close> entries are \<open>1\<close> at the position of the label
  of sample \<open>i\<close> and \<open>0\<close> elsewhere.
\<close>

theorem train_with_labels_one_hot:
  assumes "2 \<le> length net" and "I = length net - 2" and "layer_shape (net ! I)"
    and "length lit = length input"
  shows "let rbm = (net ! I)\<lparr>state := train (net ! I) (state (net ! I)) input max_epochs\<rparr>;
             next_a = activate_many rbm (state rbm) input;
             big_next_a = encode_labels (l_output_size rbm) labels lit 0
                            (copy_activations next_a (prepare_output rbm (length input) True labels));
             last_rbm = net ! (I + 1)
         in train_with_labels_from I net watcher input lit labels max_epochs =
              (net[I := rbm,
                   I + 1 := last_rbm\<lparr>state := train last_rbm (state last_rbm) big_next_a max_epochs\<rparr>],
               watcher @ [Pretrain_layer I (length input),
                          Pretrain_layer (I + 1) (length big_next_a)]) \<and>
            train_with_labels_from I net watcher input lit labels max_epochs =
              train_with_labels_from (I + 1) (net[I := rbm])
                (watcher @ [Pretrain_layer I (length input)]) big_next_a [] labels max_epochs \<and>
            length big_next_a = length input \<and>
            (\<forall>i < length input.
               length (big_next_a ! i) = l_output_size (net ! I) + labels \<and>
               take (l_output_size (net ! I)) (big_next_a ! i) = next_a ! i \<and>
               drop (l_output_size (net ! I)) (big_next_a ! i) =
                 map (\<lambda>l. if l = lit ! i then 1 else 0) [0..<labels])"
proof -
  define rbm where "rbm = (net ! I)\<lparr>state := train (net ! I) (state (net ! I)) input max_epochs\<rparr>"
  define next_a where "next_a = activate_many rbm (state rbm) input"
  define big0 where "big0 = prepare_output rbm (length input) True labels"
  define big1 where "big1 = copy_activations next_a big0"
  define big2 where "big2 = encode_labels (l_output_size rbm) labels lit 0 big1"
  define n where "n = l_output_size (net ! I)"
  define last_rbm where "last_rbm = net ! (I + 1)"
  have out: "l_output_size rbm = n" by (simp add: rbm_def n_def)
  have sh: "layer_shape rbm" using assms(3) by (simp add: rbm_def)
  have ln: "length next_a = length input"
    using sh by (simp add: next_a_def layer_shape_def)
  have wn: "length (next_a ! i) = n" if "i < length input" for i
  proof -
    have "next_a ! i \<in> set (activate_many rbm (state rbm) input)"
      using that ln by (simp add: next_a_def[symmetric])
    then show ?thesis using sh out by (auto simp: layer_shape_def)
  qed
  have l0: "length big0 = length input" by (simp add: big0_def prepare_output_def)
  have r0: "big0 ! i = replicate (n + labels) 0" if "i < length input" for i
    using that by (simp add: big0_def prepare_output_def prepare_one_output_def out)
  have b1: "big1 = map (\<lambda>i. copy_values (next_a ! i) (big0 ! i)) [0..<length input]"
    using ln l0 by (simp add: big1_def copy_activations_eq)
  have r1: "big1 ! i = next_a ! i @ replicate labels 0" if "i < length input" for i
    using that wn[OF that] r0[OF that] by (simp add: b1 copy_values_eq)
  have l1: "length big1 = length input" by (simp add: b1)
  have l2: "length big2 = length input" by (simp add: big2_def encode_labels_length l1)
  have r2: "big2 ! i = next_a ! i @ map (\<lambda>l. if lit ! i = l then 1 else 0) [0..<labels]"
    if "i < length input" for i
  proof -
    have "big2 ! (0 + i) = encode_label n labels (lit ! i) (big1 ! (0 + i))"
      unfolding big2_def out using that assms(4) l1 by (intro encode_labels_nth) auto
    then show ?thesis using that wn[OF that] by (simp add: r1 encode_label_eq)
  qed
  have c: "I < length net" "I < length net - 1" "(I = length net - 2) = True"
    using assms(1,2) by auto
  have call: "train_with_labels_from I net watcher input lit labels max_epochs =
      train_with_labels_from (I + 1) (net[I := rbm])
        (watcher @ [Pretrain_layer I (length input)]) big2 [] labels max_epochs"
    by (subst train_with_labels_from.simps)
       (simp only: Let_def c if_True rbm_def next_a_def big0_def big1_def big2_def)
  have "train_with_labels_from (I + 1) (net[I := rbm])
        (watcher @ [Pretrain_layer I (length input)]) big2 [] labels max_epochs =
      ((net[I := rbm])[I + 1 := ((net[I := rbm]) ! (I + 1))
          \<lparr>state := train ((net[I := rbm]) ! (I + 1)) (state ((net[I := rbm]) ! (I + 1)))
                      big2 max_epochs\<rparr>],
       (watcher @ [Pretrain_layer I (length input)]) @ [Pretrain_layer (I + 1) (length big2)])"
    using assms(1,2) by (intro train_with_labels_from_last) auto
  then have result: "train_with_labels_from I net watcher input lit labels max_epochs =
      (net[I := rbm, I + 1 := last_rbm\<lparr>state := train last_rbm (state last_rbm) big2 max_epochs\<rparr>],
       watcher @ [Pretrain_layer I (length input), Pretrain_layer (I + 1) (length big2)])"
    unfolding call by (simp add: last_rbm_def)
  have rows: "\<forall>i < length input.
      length (big2 ! i) = n + labels \<and> take n (big2 ! i) = next_a ! i \<and>
      drop n (big2 ! i) = map (\<lambda>l. if l = lit ! i then 1 else 0) [0..<labels]"
    using wn by (auto simp: r2)
  show ?thesis
    unfolding Let_def rbm_def[symmetric] next_a_def[symmetric] big0_def[symmetric]
      big1_def[symmetric] big2_def[symmetric] n_def[symmetric] last_rbm_def[symmetric]
    using result call l2 rows by (intro conjI)
qed

theorem train_with_labels_one_hot_witness:
  "train_with_labels_from 0 [example_rbm 2 2 1 False True 0, example_sum_rbm 5 2 1 False True 0] []
      [[1, 2], [0, 1]] [1, 2] 3 1 =
   ([example_rbm 2 2 1 False True 2, example_sum_rbm 5 2 1 False True 18],
    [Pretrain_layer 0 2, Pretrain_layer 1 2])"
proof -
  define net where "net = [example_rbm 2 2 1 False True 0, example_sum_rbm 5 2 1 False True 0]"
  have h1: "2 \<le> length net" by (simp add: net_def)
  have h2: "0 = length net - 2" by (simp add: net_def)
  have h3: "layer_shape (net ! 0)" by (simp add: net_def example_rbm_shape)
  have h4: "length [1, 2 :: nat] = length [[1, 2], [0, 1 :: real]]" by simp
  have e1: "(net ! 0)\<lparr>state := train (net ! 0) (state (net ! 0)) [[1, 2], [0, 1]] 1\<rparr> =
      example_rbm 2 2 1 False True 2"
    by (simp add: net_def example_rbm_fields example_rbm_state_update numeral_2_eq_2)
  have e2: "activate_many (example_rbm 2 2 1 False True 2) (state (example_rbm 2 2 1 False True 2))
      [[1, 2], [0, 1]] = [[5, 5], [3, 3]]"
    by (simp add: example_rbm_fields numeral_eq_Suc)
  have e3: "encode_labels (l_output_size (example_rbm 2 2 1 False True 2)) 3 [1, 2] 0
     (copy_activations [[5, 5], [3, 3]]
        (prepare_output (example_rbm 2 2 1 False True 2) (length [[1, 2], [0, 1 :: real]]) True 3)) =
     [[5, 5, 0, 1, 0], [3, 3, 0, 0, 1]]"
    by (simp add: example_rbm_fields prepare_output_def prepare_one_output_def
        copy_activations_def copy_values_def encode_label_def numeral_eq_Suc)
  have e4: "net ! (0 + 1) = example_sum_rbm 5 2 1 False True 0" by (simp add: net_def)
  have e5: "(example_sum_rbm 5 2 1 False True 0)
      \<lparr>state := train (example_sum_rbm 5 2 1 False True 0)
                 (state (example_sum_rbm 5 2 1 False True 0))
                 [[5, 5, 0, 1, 0], [3, 3, 0, 0, 1]] 1\<rparr> = example_sum_rbm 5 2 1 False True 18"
    by (simp add: example_sum_rbm_fields example_sum_rbm_state_update)
  have e6: "net[0 := example_rbm 2 2 1 False True 2, 0 + 1 := example_sum_rbm 5 2 1 False True 18] =
      [example_rbm 2 2 1 False True 2, example_sum_rbm 5 2 1 False True 18]"
    by (simp add: net_def)
  have e7: "length [[1, 2], [0, 1 :: real]] = 2" "length [[5, 5, 0, 1, 0], [3, 3, 0, 0, 1 :: real]] = 2"
    "[] @ [Pretrain_layer 0 2, Pretrain_layer (0 + 1) 2] = [Pretrain_layer 0 2, Pretrain_layer 1 2]"
    by simp_all
  note t = train_with_labels_one_hot[OF h1 h2 h3 h4, of 1 3 "[]", unfolded Let_def, THEN conjunct1]
  show ?thesis
    using t[unfolded e1, unfolded e2, unfolded e3, unfolded e4, unfolded e5, unfolded e6,
        unfolded e7] unfolding net_def .
qed

subsection \<open>Preconditions of the training with labels\<close>

text \<open>
  Claim C4: \<^verbatim>\<open>train_with_labels(samples, labels, label_count, max_epochs)\<close> on a network
  of at least two layers fails with the assertion message of the violated condition when
  the number of samples differs from the number of labels, or when the input size of the
  last layer is not the output size of the second-to-last layer plus the label count; the
  failure is the fatal assertion, no training result is returned.  When both conditions
  hold the call returns the trained network.
\<close>

theorem train_with_labels_preconditions:
  assumes "2 \<le> length net"
  shows
   "(length training_data \<noteq> length training_labels \<longrightarrow>
       train_with_labels net training_data training_labels labels max_epochs =
         Inl (Assertion_failed ''There must be the same number of values than labels'')) \<and>
    (length training_data = length training_labels \<and>
     l_input_size (net ! (length net - 1)) \<noteq> l_output_size (net ! (length net - 2)) + labels \<longrightarrow>
       train_with_labels net training_data training_labels labels max_epochs =
         Inl (Assertion_failed ''There is no room for the labels units'')) \<and>
    (length training_data = length training_labels \<and>
     l_input_size (net ! (length net - 1)) = l_output_size (net ! (length net - 2)) + labels \<longrightarrow>
       train_with_labels net training_data training_labels labels max_epochs =
         Inr (let (net', watcher') =
                    train_with_labels_from 0 net [Pretraining_begin max_epochs]
                      (convert_input (net ! 0) training_data) training_labels labels max_epochs
              in (net', watcher' @ [Pretraining_end])))"
  by (simp add: train_with_labels_def train_with_labels_range_def cpp_assert_def Let_def
      split: prod.splits)

theorem train_with_labels_preconditions_witness:
  "train_with_labels [example_rbm 2 2 1 False True 0, example_rbm 5 2 1 False True 0]
     [[1, 2], [0, 1]] [1] 3 1 =
     Inl (Assertion_failed ''There must be the same number of values than labels'') \<and>
   train_with_labels [example_rbm 2 2 1 False True 0, example_rbm 5 2 1 False True 0]
     [[1, 2], [0, 1]] [1, 0] 4 1 =
     Inl (Assertion_failed ''There is no room for the labels units'') \<and>
   isl (train_with_labels [example_rbm 2 2 1 False True 0, example_rbm 5 2 1 False True 0]
     [[1, 2], [0, 1]] [1, 0] 3 1) = False"
  using train_with_labels_preconditions
      [of "[example_rbm 2 2 1 False True 0, example_rbm 5 2 1 False True 0]"
          "[[1, 2], [0, 1]]" "[1]" 3 1]
    train_with_labels_preconditions
      [of "[example_rbm 2 2 1 False True 0, example_rbm 5 2 1 False True 0]"
          "[[1, 2], [0, 1]]" "[1, 0]" 4 1]
    train_with_labels_preconditions
      [of "[example_rbm 2 2 1 False True 0, example_rbm 5 2 1 False True 0]"
          "[[1, 2], [0, 1]]" "[1, 0]" 3 1]
  by (simp add: example_rbm_fields)


subsection \<open>Prediction with labels\<close>

lemma fill_from_append:
  "length a = n \<Longrightarrow> fill_from n v (a @ rest) = a @ replicate (length rest) v"
  by (simp add: fill_from_def)

lemma augmented_hidden:
  "length next_a = l_output_size rbm \<Longrightarrow>
   fill_from (l_output_size rbm) v (copy_values next_a (prepare_one_output rbm True labels)) =
     next_a @ replicate labels v"
  by (simp add: copy_values_eq prepare_one_output_def fill_from_append)

lemma predict_labels_from_second_to_last:
  assumes "2 \<le> length net" and "I = length net - 2"
  shows "predict_labels_from I net input output labels =
      predict_labels_from (I + 1) net
        (fill_from (l_output_size (net ! I)) (0.1)
           (copy_values (fst (activate_hidden (net ! I) (state (net ! I)) input input))
              (prepare_one_output (net ! I) True labels)))
        output labels"
proof -
  have c: "I < length net" "(I = length net - 1) = False" "(I = length net - 2) = True"
    using assms by auto
  show ?thesis
    by (subst predict_labels_from.simps)
       (simp only: Let_def c if_True if_False split_beta)
qed

lemma predict_labels_from_last:
  assumes "net \<noteq> []" and "I = length net - 1"
  shows "predict_labels_from I net input output labels =
     (let rbm = net ! I; (a, s) = activate_hidden rbm (state rbm) input input
      in activate_visible rbm (state rbm) a s)"
proof -
  have c: "I < length net" "(I = length net - 1) = True" using assms by auto
  show ?thesis
    by (subst predict_labels_from.simps) (simp only: Let_def c if_True split_beta)
qed

text \<open>
  Claim C10: in \<^verbatim>\<open>predict_labels\<close>, at the second-to-last layer \<open>I\<close> (respecting the
  shape contract) the input built for the last layer has \<^verbatim>\<open>output_size(I)\<close> plus \<open>labels\<close>
  entries; the first \<^verbatim>\<open>output_size(I)\<close> are the hidden activation of layer \<open>I\<close> and each of
  the other \<open>labels\<close> entries is the constant \<open>0.1\<close>, which is neither \<open>0\<close> nor \<open>1\<close>.  The
  call returns what the last layer reconstructs from its hidden activation of this
  input.
\<close>

theorem predict_labels_fill:
  assumes "2 \<le> length net" and "I = length net - 2" and "layer_shape (net ! I)"
  shows "let rbm = net ! I;
             next_a = fst (activate_hidden rbm (state rbm) input input);
             big_next_a = fill_from (l_output_size rbm) (0.1)
                            (copy_values next_a (prepare_one_output rbm True labels));
             last_rbm = net ! (I + 1);
             hidden = activate_hidden last_rbm (state last_rbm) big_next_a big_next_a
         in predict_labels_from I net input output labels =
              activate_visible last_rbm (state last_rbm) (fst hidden) (snd hidden) \<and>
            predict_labels_from I net input output labels =
              predict_labels_from (I + 1) net big_next_a output labels \<and>
            length big_next_a = l_output_size rbm + labels \<and>
            take (l_output_size rbm) big_next_a = next_a \<and>
            drop (l_output_size rbm) big_next_a = replicate labels (0.1) \<and>
            (\<forall>x \<in> set (drop (l_output_size rbm) big_next_a). x = 0.1 \<and> x \<noteq> 0 \<and> x \<noteq> 1)"
proof -
  define rbm where "rbm = net ! I"
  define next_a where "next_a = fst (activate_hidden rbm (state rbm) input input)"
  define big where "big = fill_from (l_output_size rbm) (0.1)
      (copy_values next_a (prepare_one_output rbm True labels))"
  define last_rbm where "last_rbm = net ! (I + 1)"
  define hidden where "hidden = activate_hidden last_rbm (state last_rbm) big big"
  have ln: "length next_a = l_output_size rbm"
    using assms(3) by (simp add: next_a_def rbm_def layer_shape_def)
  have b: "big = next_a @ replicate labels 0.1"
    unfolding big_def using ln by (rule augmented_hidden)
  have call: "predict_labels_from I net input output labels =
      predict_labels_from (I + 1) net big output labels"
    unfolding big_def next_a_def rbm_def using assms(1,2)
    by (rule predict_labels_from_second_to_last)
  have "predict_labels_from (I + 1) net big output labels =
      (let rbm = net ! (I + 1); (a, s) = activate_hidden rbm (state rbm) big big
       in activate_visible rbm (state rbm) a s)"
    using assms(1,2) by (intro predict_labels_from_last) auto
  then have result: "predict_labels_from I net input output labels =
      activate_visible last_rbm (state last_rbm) (fst hidden) (snd hidden)"
    unfolding call by (simp add: Let_def split_beta last_rbm_def hidden_def)
  have len: "length big = l_output_size rbm + labels" using ln by (simp add: b)
  have tk: "take (l_output_size rbm) big = next_a" using ln by (simp add: b)
  have dr: "drop (l_output_size rbm) big = replicate labels (0.1)" using ln by (simp add: b)
  have fl: "\<forall>x \<in> set (drop (l_output_size rbm) big). x = 0.1 \<and> x \<noteq> 0 \<and> x \<noteq> 1"
    unfolding dr by simp
  show ?thesis
    unfolding Let_def rbm_def[symmetric] next_a_def[symmetric] big_def[symmetric]
      last_rbm_def[symmetric] hidden_def[symmetric]
    using result call len tk dr fl by (intro conjI)
qed

theorem predict_labels_fill_witness:
   "predict_labels_from 0 [example_rbm 2 2 1 False True 0, example_rbm 5 2 1 False True 0]
      [1, 2] [] 3 = [0, 63 / 5, 126 / 5, 189 / 5, 252 / 5]"
proof -
  define net where "net = [example_rbm 2 2 1 False True 0, example_rbm 5 2 1 False True 0]"
  have h1: "2 \<le> length net" by (simp add: net_def)
  have h2: "0 = length net - 2" by (simp add: net_def)
  have h3: "layer_shape (net ! 0)" by (simp add: net_def example_rbm_shape)
  have e1: "net ! 0 = example_rbm 2 2 1 False True 0" "net ! (0 + 1) = example_rbm 5 2 1 False True 0"
    by (simp_all add: net_def)
  have e2: "fst (activate_hidden (example_rbm 2 2 1 False True 0)
      (state (example_rbm 2 2 1 False True 0)) [1, 2] [1, 2]) = [3, 3]"
    by (simp add: example_rbm_fields numeral_eq_Suc)
  have e3: "fill_from (l_output_size (example_rbm 2 2 1 False True 0)) (0.1)
      (copy_values [3, 3] (prepare_one_output (example_rbm 2 2 1 False True 0) True 3)) =
     [3, 3, 0.1, 0.1, 0.1]"
    by (simp add: example_rbm_fields fill_from_def copy_values_def prepare_one_output_def
        numeral_eq_Suc)
  have e4: "activate_hidden (example_rbm 5 2 1 False True 0) (state (example_rbm 5 2 1 False True 0))
      [3, 3, 0.1, 0.1, 0.1] [3, 3, 0.1, 0.1, 0.1] = ([63 / 10, 63 / 10], [0, 0])"
    by (simp add: example_rbm_fields numeral_eq_Suc)
  have e5: "activate_visible (example_rbm 5 2 1 False True 0) (state (example_rbm 5 2 1 False True 0))
      (fst ([63 / 10, 63 / 10], [0, 0])) (snd ([63 / 10, 63 / 10], [0, 0])) =
     [0, 63 / 5, 126 / 5, 189 / 5, 252 / 5]"
    by (simp add: example_rbm_fields upt_rec[of 0] upt_rec[of 1]
        upt_rec[of 2] upt_rec[of 3] upt_rec[of 4] upt_rec[of 5] numeral_eq_Suc)
  note t = predict_labels_fill[OF h1 h2 h3, of "[1, 2]" 3 "[]", unfolded Let_def, THEN conjunct1]
  show ?thesis
    using t[unfolded e1, unfolded e2, unfolded e3, unfolded e4, unfolded e5]
    unfolding net_def .
qed

lemma predict_labels_from_chain:
  assumes "2 \<le> length net"
    and "\<forall>I < length net - 1. layer_shape (net ! I)"
    and "\<forall>I < length net - 1. \<forall>p v. fst (activate_hidden (net ! I) p v v) = activate_one (net ! I) p v"
  shows "I \<le> length net - 2 \<Longrightarrow>
    predict_labels_from I net input output labels =
      (let rbm = net ! (length net - 1);
           h = activation_probabilities_from I (length net - 1) net input [];
           big = h @ replicate labels 0.1;
           (a, s) = activate_hidden rbm (state rbm) big big
       in activate_visible rbm (state rbm) a s)"
proof (induction "length net - 2 - I" arbitrary: I input)
  case 0
  then have I: "I = length net - 2" by simp
  have I1: "I + 1 = length net - 1" "length net - 1 = Suc I" using I assms(1) by auto
  have sh: "layer_shape (net ! I)" using assms(1,2) I by simp
  have h: "fst (activate_hidden (net ! I) (state (net ! I)) input input) =
      activation_probabilities_from I (length net - 1) net input []"
  proof -
    have "I < length net - 1" using I1 by simp
    then have "fst (activate_hidden (net ! I) (state (net ! I)) input input) =
        activate_one (net ! I) (state (net ! I)) input"
      using assms(3) by blast
    then show ?thesis unfolding I1(2) by (simp only: activation_probabilities_from_last)
  qed
  have "predict_labels_from I net input output labels =
      predict_labels_from (I + 1) net
        (fst (activate_hidden (net ! I) (state (net ! I)) input input) @ replicate labels 0.1)
        output labels"
    using predict_labels_from_second_to_last[OF assms(1) I, of input "output" labels] sh
    by (simp add: augmented_hidden layer_shape_def)
  also have "\<dots> = (let rbm = net ! (I + 1);
      (a, s) = activate_hidden rbm (state rbm)
         (fst (activate_hidden (net ! I) (state (net ! I)) input input) @ replicate labels 0.1)
         (fst (activate_hidden (net ! I) (state (net ! I)) input input) @ replicate labels 0.1)
      in activate_visible rbm (state rbm) a s)"
    using assms(1) I1 by (intro predict_labels_from_last) auto
  finally show ?case unfolding h I1(1) by (simp add: Let_def)
next
  case (Suc n)
  then have I: "I < length net - 2" by simp
  have c: "I < length net" "(I = length net - 1) = False" "(I = length net - 2) = False"
    using I by auto
  have a: "fst (activate_hidden (net ! I) (state (net ! I)) input input) =
      activate_one (net ! I) (state (net ! I)) input"
    using assms(3) I by simp
  have "predict_labels_from I net input output labels =
      predict_labels_from (I + 1) net (activate_one (net ! I) (state (net ! I)) input) output labels"
    by (subst predict_labels_from.simps)
       (simp only: Let_def c if_True if_False split_beta a)
  also have "\<dots> = (let rbm = net ! (length net - 1);
           h = activation_probabilities_from (I + 1) (length net - 1) net
                 (activate_one (net ! I) (state (net ! I)) input) [];
           big = h @ replicate labels 0.1;
           (a, s) = activate_hidden rbm (state rbm) big big
       in activate_visible rbm (state rbm) a s)"
    using Suc.hyps(2) I by (intro Suc.hyps(1)) auto
  also have "activation_probabilities_from (I + 1) (length net - 1) net
        (activate_one (net ! I) (state (net ! I)) input) [] =
      activation_probabilities_from I (length net - 1) net input []"
  proof -
    obtain J where J: "length net - 1 = Suc J" "I < J" using I by (cases "length net - 1") auto
    show ?thesis unfolding J(1) using J(2) by (simp add: activation_probabilities_from_step)
  qed
  finally show ?case .
qed

text \<open>
  Claim C5: on a network of at least two layers that respect the shape contract, whose
  \<^verbatim>\<open>activate_hidden\<close> gives below the last layer the activation of \<^verbatim>\<open>activate_one\<close>, and
  whose last layer has room for the labels, \<^verbatim>\<open>predict_labels(sample, label_count)\<close>
  propagates the sample through the layers \<open>0 .. layers - 2\<close> as the forward chain does
  (\<open>h\<close>), activates the hidden units of the last layer on \<open>h\<close> enlarged by the label slots
  and reconstructs its visible units from them (\<open>v\<close>), and returns the position of the
  first maximum among the last \<open>labels\<close> entries of \<open>v\<close>, counted from the start of these
  entries.
\<close>

theorem predict_labels_bidirectional:
  assumes "2 \<le> length net"
    and "\<forall>I < length net. layer_shape (net ! I)"
    and "\<forall>I < length net - 1. \<forall>p v. fst (activate_hidden (net ! I) p v v) = activate_one (net ! I) p v"
    and "l_input_size (net ! (length net - 1)) = l_output_size (net ! (length net - 2)) + labels"
  shows "let rbm = net ! (length net - 1);
             h = activation_probabilities_from 0 (length net - 1) net item [];
             big = h @ replicate labels 0.1;
             (a, s) = activate_hidden rbm (state rbm) big big;
             v = activate_visible rbm (state rbm) a s
         in predict_labels net item labels = Inr (max_element (drop (length v - labels) v)) \<and>
            length h = l_output_size (net ! (length net - 2)) \<and>
            length v = l_output_size (net ! (length net - 2)) + labels \<and>
            (0 < labels \<longrightarrow> max_element (drop (length v - labels) v) < labels)"
proof -
  define rbm where "rbm = net ! (length net - 1)"
  define h where "h = activation_probabilities_from 0 (length net - 1) net item []"
  define big where "big = h @ replicate labels 0.1"
  define as where "as = activate_hidden rbm (state rbm) big big"
  define v where "v = activate_visible rbm (state rbm) (fst as) (snd as)"
  have sh: "\<forall>l \<in> set net. layer_shape l" using assms(2) by (auto simp: in_set_conv_nth)
  have lh: "length h = l_output_size (net ! (length net - 2))"
  proof -
    have "0 < length net - 1" "length net - 1 \<le> length net" "length net - 1 - 1 = length net - 2"
      using assms(1) by auto
    then show ?thesis
      using activation_probabilities_from_length[OF sh, of 0 "length net - 1" item "[]"]
      by (simp only: h_def)
  qed
  have lv: "length v = l_output_size (net ! (length net - 2)) + labels"
    using assms(1,2,4) by (simp add: v_def rbm_def layer_shape_def)
  have "predict_labels_from 0 net item (prepare_one_input rbm) labels = v"
    using predict_labels_from_chain[OF assms(1) _ assms(3), of 0 item "prepare_one_input rbm" labels]
      assms(2)
    by (simp add: Let_def split_beta v_def as_def big_def h_def rbm_def)
  then have p: "predict_labels net item labels = Inr (max_element (drop (length v - labels) v))"
    using assms(4) by (simp add: predict_labels_def cpp_assert_def Let_def rbm_def)
  have m: "max_element (drop (length v - labels) v) < labels" if "0 < labels"
  proof -
    have "drop (length v - labels) v \<noteq> []" using that lv by simp
    from max_element_props(1)[OF this] show ?thesis using lv by simp
  qed
  show ?thesis
    unfolding Let_def split_beta rbm_def[symmetric] h_def[symmetric] big_def[symmetric]
      as_def[symmetric] v_def[symmetric]
    using p lh lv m by simp
qed

theorem predict_labels_bidirectional_witness:
  "predict_labels [example_rbm 2 2 1 False True 0, example_rbm 5 2 1 False True 0] [1, 2] 3 = Inr 2"
  using predict_labels_bidirectional
    [of "[example_rbm 2 2 1 False True 0, example_rbm 5 2 1 False True 0]" 3 "[1, 2]"]
  by (simp add: Let_def example_rbm_shape example_rbm_fields nth_Cons less_Suc_eq
      activation_probabilities_from_last max_element_def numeral_eq_Suc split: nat.splits)

subsection \<open>Persistence\<close>

lemma store_layers_eq:
  "fold store_layer net os =
     os @ concat (map (\<lambda>l. l_store l (state l)) (filter (\<lambda>l. \<not> is_pooling_layer l) net))"
  by (induction net arbitrary: os) (auto simp: store_layer_def)

lemma same_layer_type_fields:
  assumes "same_layer_type l l'"
  shows "is_pooling_layer l' = is_pooling_layer l" and "l_load l' = l_load l"
    and "activate_one l' = activate_one l" and "convert_sample l' = convert_sample l"
    and "l_output_size l' = l_output_size l" and "l'\<lparr>state := state l\<rparr> = l"
proof -
  have e: "l = l'\<lparr>state := state l\<rparr>" using assms by (simp add: same_layer_type_def)
  show "is_pooling_layer l' = is_pooling_layer l" by (subst e) simp
  show "l_load l' = l_load l" by (subst e) simp
  show "activate_one l' = activate_one l" by (subst e) simp
  show "convert_sample l' = convert_sample l" by (subst e) simp
  show "l_output_size l' = l_output_size l" by (subst e) simp
  show "l'\<lparr>state := state l\<rparr> = l" using e by simp
qed

lemma load_layers_store:
  assumes "list_all2 same_layer_type net net'"
    and "\<forall>l \<in> set net. \<not> is_pooling_layer l \<longrightarrow>
           (\<forall>p q rest. l_load l q (l_store l p @ rest) = (p, rest))"
  shows "load_layers net'
           (concat (map (\<lambda>l. l_store l (state l)) (filter (\<lambda>l. \<not> is_pooling_layer l) net)) @ rest) =
         (map2 (\<lambda>l l'. if is_pooling_layer l then l' else l) net net', rest)"
  using assms
proof (induction net net' rule: list_all2_induct)
  case Nil
  then show ?case by simp
next
  case (Cons l net l' net')
  note f = same_layer_type_fields[OF Cons.hyps(1)]
  have ih: "load_layers net'
      (concat (map (\<lambda>l. l_store l (state l)) (filter (\<lambda>l. \<not> is_pooling_layer l) net)) @ rest) =
      (map2 (\<lambda>l l'. if is_pooling_layer l then l' else l) net net', rest)"
    using Cons.prems by (intro Cons.IH) auto
  show ?case
  proof (cases "is_pooling_layer l")
    case True
    then show ?thesis by (simp add: load_layer_def f(1) ih)
  next
    case False
    then have rt: "l_load l q (l_store l p @ rest') = (p, rest')" for p q rest'
      using Cons.prems by simp
    show ?thesis using False by (simp add: load_layer_def f(1,2,6) rt ih)
  qed
qed

text \<open>
  Claim C6: \<^verbatim>\<open>store\<close> appends to the stream the blocks of the layers that are not
  pooling layers, in the order of the tuple, and behind them what \<^verbatim>\<open>svm_store\<close> writes for
  the classifier; pooling layers write nothing.  \<^verbatim>\<open>load\<close> into an identically shaped
  network reads the blocks back in this order, leaves the pooling layers as they are and
  hands the rest of the stream to \<^verbatim>\<open>svm_load\<close>.  When every layer that is not a pooling
  layer reads back what it has written, and pooling layers have no parameters, the
  loaded network has the same \<^verbatim>\<open>activation_probabilities\<close> for every sample.
\<close>

theorem store_load_round_trip:
  assumes "list_all2 same_layer_type (tuples dbn) (tuples dbn')"
    and "\<forall>l \<in> set (tuples dbn). \<not> is_pooling_layer l \<longrightarrow>
           (\<forall>p q rest. l_load l q (l_store l p @ rest) = (p, rest))"
    and "\<forall>l \<in> set (tuples dbn). is_pooling_layer l \<longrightarrow>
           (\<forall>p q. activate_one l p = activate_one l q)"
  shows "store lib dbn os =
           os @ concat (map (\<lambda>l. l_store l (state l))
                          (filter (\<lambda>l. \<not> is_pooling_layer l) (tuples dbn))) @
           svm_store lib (svm_model dbn) (svm_loaded dbn) \<and>
         load lib dbn' (store lib dbn []) =
           (let ((model, loaded), rest) =
                  svm_load lib (svm_model dbn') (svm_loaded dbn')
                    (svm_store lib (svm_model dbn) (svm_loaded dbn))
            in (dbn'\<lparr>tuples := map2 (\<lambda>l l'. if is_pooling_layer l then l' else l)
                                   (tuples dbn) (tuples dbn'),
                      svm_model := model, svm_loaded := loaded\<rparr>, rest)) \<and>
         activation_probabilities (tuples (fst (load lib dbn' (store lib dbn [])))) sample =
           activation_probabilities (tuples dbn) sample"
proof -
  define net where "net = tuples dbn"
  define net' where "net' = tuples dbn'"
  define loaded where "loaded = map2 (\<lambda>l l'. if is_pooling_layer l then l' else l) net net'"
  have len: "length net' = length net"
    using assms(1) by (simp add: net_def net'_def list_all2_lengthD)
  have st: "store lib dbn os =
      os @ concat (map (\<lambda>l. l_store l (state l)) (filter (\<lambda>l. \<not> is_pooling_layer l) net)) @
      svm_store lib (svm_model dbn) (svm_loaded dbn)" for os
    by (simp add: store_def store_layers_eq net_def)
  have ll: "load_layers net' (store lib dbn []) =
      (loaded, svm_store lib (svm_model dbn) (svm_loaded dbn))"
    unfolding st loaded_def append_Nil
    using assms(1,2) by (intro load_layers_store) (simp_all add: net_def net'_def)
  have ld: "load lib dbn' (store lib dbn []) =
      (let ((model, flag), rest) =
             svm_load lib (svm_model dbn') (svm_loaded dbn')
               (svm_store lib (svm_model dbn) (svm_loaded dbn))
       in (dbn'\<lparr>tuples := loaded, svm_model := model, svm_loaded := flag\<rparr>, rest))"
    by (simp add: load_def ll net'_def[symmetric] split: prod.splits)
  have tl: "tuples (fst (load lib dbn' (store lib dbn []))) = loaded"
    by (simp add: ld split: prod.splits)
  have ll: "length loaded = length net" using len by (simp add: loaded_def)
  have act: "activate_one (loaded ! I) (state (loaded ! I)) = activate_one (net ! I) (state (net ! I))"
    if "I < length net" for I
  proof (cases "is_pooling_layer (net ! I)")
    case True
    have "same_layer_type (net ! I) (net' ! I)"
      using assms(1) that by (simp add: net_def net'_def list_all2_nthD)
    then have "activate_one (net' ! I) = activate_one (net ! I)"
      by (rule same_layer_type_fields)
    moreover have "activate_one (net ! I) (state (net' ! I)) = activate_one (net ! I) (state (net ! I))"
      using assms(3) that True by (simp add: net_def)
    ultimately show ?thesis using True that len by (simp add: loaded_def)
  next
    case False
    then show ?thesis using that len by (simp add: loaded_def)
  qed
  have cs: "convert_sample (loaded ! 0) = convert_sample (net ! 0)" if "net \<noteq> []"
  proof -
    have "same_layer_type (net ! 0) (net' ! 0)"
      using assms(1) that by (simp add: net_def net'_def list_all2_nthD)
    then have "convert_sample (net' ! 0) = convert_sample (net ! 0)"
      by (rule same_layer_type_fields)
    then show ?thesis using that len by (simp add: loaded_def)
  qed
  have os: "l_output_size (loaded ! (length net - 1)) = l_output_size (net ! (length net - 1))"
    if "net \<noteq> []"
  proof -
    have "same_layer_type (net ! (length net - 1)) (net' ! (length net - 1))"
      using assms(1) that by (simp add: net_def net'_def list_all2_nthD)
    then have "l_output_size (net' ! (length net - 1)) = l_output_size (net ! (length net - 1))"
      by (rule same_layer_type_fields)
    then show ?thesis using that len by (simp add: loaded_def)
  qed
  have ap: "activation_probabilities loaded sample = activation_probabilities net sample"
  proof (cases "net = []")
    case True
    then have "loaded = []" by (simp add: loaded_def)
    then show ?thesis using True by simp
  next
    case False
    have "activation_probabilities_from 0 (length net) loaded input r =
        activation_probabilities_from 0 (length net) net input r" for input r
      using act by (intro activation_probabilities_from_cong) simp
    then show ?thesis
      using False cs os
      by (simp add: activation_probabilities_def activation_probabilities_into_def ll
          prepare_one_output_def)
  qed
  have c3: "activation_probabilities (tuples (fst (load lib dbn' (store lib dbn [])))) sample =
      activation_probabilities (tuples dbn) sample"
    unfolding tl net_def[symmetric] by (rule ap)
  show ?thesis
    using st[of os] ld c3 unfolding loaded_def net_def net'_def by (intro conjI)
qed

theorem store_load_round_trip_witness:
  "store example_svm
     \<lparr>tuples = [example_rbm 2 2 1 False True 3, example_rbm 2 2 1 True True 9,
                example_rbm 2 3 1 False True 5],
      svm_model = 4, problem = [], svm_loaded = True\<rparr> [] = [3, 5, 1, 4] \<and>
   activation_probabilities
     (tuples (fst (load example_svm
        \<lparr>tuples = [example_rbm 2 2 1 False True 0, example_rbm 2 2 1 True True 0,
                   example_rbm 2 3 1 False True 0],
         svm_model = 0, problem = [], svm_loaded = False\<rparr>
        (store example_svm
           \<lparr>tuples = [example_rbm 2 2 1 False True 3, example_rbm 2 2 1 True True 9,
                      example_rbm 2 3 1 False True 5],
            svm_model = 4, problem = [], svm_loaded = True\<rparr> [])))) [1, 2] =
   activation_probabilities
     [example_rbm 2 2 1 False True 3, example_rbm 2 2 1 True True 9,
      example_rbm 2 3 1 False True 5] [1, 2]"
proof -
  define dbn :: "(nat, (nat \<times> vec) list, nat) dbn" where
    "dbn = \<lparr>tuples = [example_rbm 2 2 1 False True 3, example_rbm 2 2 1 True True 9,
                example_rbm 2 3 1 False True 5],
      svm_model = 4, problem = [], svm_loaded = True\<rparr>"
  define dbn' :: "(nat, (nat \<times> vec) list, nat) dbn" where
    "dbn' = \<lparr>tuples = [example_rbm 2 2 1 False True 0, example_rbm 2 2 1 True True 0,
                   example_rbm 2 3 1 False True 0],
         svm_model = 0, problem = [], svm_loaded = False\<rparr>"
  have h1: "list_all2 same_layer_type (tuples dbn) (tuples dbn')"
    by (simp add: dbn_def dbn'_def same_layer_type_def example_rbm_state_update
        example_rbm_fields)
  have h2: "\<forall>l \<in> set (tuples dbn). \<not> is_pooling_layer l \<longrightarrow>
           (\<forall>p q rest. l_load l q (l_store l p @ rest) = (p, rest))"
    by (simp add: dbn_def example_rbm_fields)
  have h3: "\<forall>l \<in> set (tuples dbn). is_pooling_layer l \<longrightarrow>
           (\<forall>p q. activate_one l p = activate_one l q)"
    by (simp add: dbn_def example_rbm_fields fun_eq_iff)
  have s: "store example_svm dbn [] = [3, 5, 1, 4]"
    by (simp add: dbn_def store_def store_layer_def example_rbm_fields example_svm_fields)
  have "activation_probabilities (tuples (fst (load example_svm dbn' (store example_svm dbn [])))) [1, 2] =
      activation_probabilities (tuples dbn) [1, 2]"
    using store_load_round_trip[OF h1 h2 h3, of example_svm "[]" "[1, 2]"] by blast
  then show ?thesis
    using s unfolding dbn_def dbn'_def by simp
qed

subsection \<open>Prediction\<close>

text \<open>
  Claim C7: \<^verbatim>\<open>predict(sample)\<close> is the position of the largest entry of
  \<^verbatim>\<open>activation_probabilities(sample)\<close>; among equal largest entries it is the first one
  (every entry before the returned position is strictly smaller); and the label predicted
  for the activation vector \<open>[0.1, 0.9, 0.3]\<close> is \<open>1\<close>.
\<close>

theorem predict_first_maximum:
  "(activation_probabilities net item \<noteq> [] \<longrightarrow>
      predict net item < length (activation_probabilities net item) \<and>
      (\<forall>x \<in> set (activation_probabilities net item).
         x \<le> activation_probabilities net item ! predict net item) \<and>
      (\<forall>j < predict net item.
         activation_probabilities net item ! j < activation_probabilities net item ! predict net item)) \<and>
   predict_label [0.1, 0.9, 0.3] = 1"
proof -
  have "predict_label [0.1, 0.9, 0.3] = 1"
    by (simp add: predict_label_def max_element_def)
  moreover have "predict net item = max_element (activation_probabilities net item)"
    by (simp add: predict_def predict_label_def)
  ultimately show ?thesis
    using max_element_props[of "activation_probabilities net item"] by simp
qed

theorem predict_first_maximum_witness:
  "activation_probabilities
     [example_rbm 2 2 1 False True 0, example_rbm 2 3 1 False True 1] [1, 2] = [7, 7, 7] \<and>
   predict [example_rbm 2 2 1 False True 0, example_rbm 2 3 1 False True 1] [1, 2] = 0"
proof -
  have a: "activation_probabilities
     [example_rbm 2 2 1 False True 0, example_rbm 2 3 1 False True 1] [1, 2] = [7, 7, 7]"
    by (simp add: activation_probabilities_def activation_probabilities_into_def example_rbm_fields
      activation_probabilities_from_last activation_probabilities_from_step numeral_eq_Suc)
  show ?thesis
    using predict_first_maximum
      [of "[example_rbm 2 2 1 False True 0, example_rbm 2 3 1 False True 1]" "[1, 2]"]
    unfolding a by (auto simp: less_Suc_eq numeral_eq_Suc) 
qed

subsection \<open>Concatenated activations\<close>

lemma append_values_eq:
  "i + length next_a \<le> length result \<Longrightarrow>
   append_values next_a i result =
     (i + length next_a, take i result @ next_a @ drop (i + length next_a) result)"
proof (induction next_a arbitrary: i result)
  case Nil
  then show ?case by simp
next
  case (Cons v next_a)
  have i: "i < length result" using Cons.prems by simp
  have "append_values (v # next_a) i result = append_values next_a (Suc i) (result[i := v])"
    by simp
  also have "\<dots> = (Suc i + length next_a,
      take (Suc i) (result[i := v]) @ next_a @ drop (Suc i + length next_a) (result[i := v]))"
    using Cons.prems by (intro Cons.IH) simp
  also have "take (Suc i) (result[i := v]) = take i result @ [v]"
    using i by (simp add: take_Suc_conv_app_nth)
  also have "drop (Suc i + length next_a) (result[i := v]) = drop (Suc i + length next_a) result"
    by simp
  finally show ?case by simp
qed

lemma full_output_size_sum: "full_output_size net = sum_list (map l_output_size net)"
proof -
  have "fold (\<lambda>rbm output. output + l_output_size rbm) net a = a + sum_list (map l_output_size net)"
    for a by (induction net arbitrary: a) auto
  then show ?thesis by (simp add: full_output_size_def)
qed

lemma full_activation_probabilities_from_eq:
  assumes "\<forall>l \<in> set net. layer_shape l"
  shows "I \<le> length net \<Longrightarrow>
    i + sum_list (map l_output_size (drop I net)) \<le> length result \<Longrightarrow>
    full_activation_probabilities_from I net input i result =
      (i + sum_list (map l_output_size (drop I net)),
       take i result @
       concat (map (\<lambda>J. activation_probabilities_from I (Suc J) net input []) [I..<length net]) @
       drop (i + sum_list (map l_output_size (drop I net))) result)"
proof (induction "length net - I" arbitrary: I i input result)
  case 0
  then have "I = length net" by simp
  then show ?case by (subst full_activation_probabilities_from.simps) simp
next
  case (Suc n)
  then have I: "I < length net" by simp
  define a where "a = activate_one (net ! I) (state (net ! I)) input"
  have la: "length a = l_output_size (net ! I)"
    using assms I by (simp add: a_def layer_shape_def)
  have dr: "drop I net = net ! I # drop (Suc I) net"
    using I by (simp add: Cons_nth_drop_Suc)
  define rest where "rest = sum_list (map l_output_size (drop (Suc I) net))"
  have tot: "sum_list (map l_output_size (drop I net)) = length a + rest"
    by (simp add: dr la rest_def)
  have fits: "i + length a \<le> length result" using Suc.prems(2) tot by simp
  define result' where "result' = take i result @ a @ drop (i + length a) result"
  have lr: "length result' = length result" using fits by (simp add: result'_def)
  have step: "full_activation_probabilities_from I net input i result =
      full_activation_probabilities_from (Suc I) net a (i + length a) result'"
    using I fits
    by (subst full_activation_probabilities_from.simps)
       (simp add: Let_def a_def[symmetric] append_values_eq result'_def)
  have ih: "full_activation_probabilities_from (Suc I) net a (i + length a) result' =
      (i + length a + rest,
       take (i + length a) result' @
       concat (map (\<lambda>J. activation_probabilities_from (Suc I) (Suc J) net a []) [Suc I..<length net]) @
       drop (i + length a + rest) result')"
    unfolding rest_def
    using Suc.hyps(2) I Suc.prems(2) tot lr
    by (intro Suc.hyps(1)) (simp_all add: rest_def)
  have t: "take (i + length a) result' = take i result @ a"
    using fits by (simp add: result'_def)
  have d: "drop (i + length a + rest) result' = drop (i + length a + rest) result"
    using fits by (simp add: result'_def ac_simps)
  have segs: "map (\<lambda>J. activation_probabilities_from I (Suc J) net input []) [I..<length net] =
      a # map (\<lambda>J. activation_probabilities_from (Suc I) (Suc J) net a []) [Suc I..<length net]"
    using I by (simp add: upt_conv_Cons activation_probabilities_from_last
        activation_probabilities_from_step a_def)
  show ?case
    unfolding step ih t d segs tot by (simp add: add.assoc)
qed

text \<open>
  Claim C8: for a network whose layers respect the shape contract,
  \<^verbatim>\<open>full_activation_probabilities(sample)\<close> is the concatenation, in the order of the
  layers, of the activation of every layer in the forward chain (segment \<open>I\<close> is the
  output of the chain through the layers \<open>0 .. I\<close>, of width \<^verbatim>\<open>output_size\<close> of layer
  \<open>I\<close>); its width is \<^verbatim>\<open>full_output_size()\<close>; and the chain through all layers is
  \<^verbatim>\<open>activation_probabilities(sample)\<close>.
\<close>

theorem full_activation_probabilities_concat:
  assumes "\<forall>l \<in> set net. layer_shape l"
  shows "full_activation_probabilities net item =
           concat (map (\<lambda>I. activation_probabilities_from 0 (Suc I) net
                               (convert_sample (net ! 0) item) []) [0..<length net]) \<and>
         length (full_activation_probabilities net item) = full_output_size net \<and>
         (\<forall>I < length net.
            length (activation_probabilities_from 0 (Suc I) net (convert_sample (net ! 0) item) [])
              = l_output_size (net ! I)) \<and>
         (net \<noteq> [] \<longrightarrow>
            activation_probabilities net item =
              activation_probabilities_from 0 (Suc (length net - 1)) net
                (convert_sample (net ! 0) item) [])"
proof -
  define data where "data = convert_sample (net ! 0) item"
  define result where "result = replicate (full_output_size net) (0::real)"
  have "full_activation_probabilities_from 0 net data 0 result =
      (0 + sum_list (map l_output_size (drop 0 net)),
       take 0 result @
       concat (map (\<lambda>J. activation_probabilities_from 0 (Suc J) net data []) [0..<length net]) @
       drop (0 + sum_list (map l_output_size (drop 0 net))) result)"
    using assms by (intro full_activation_probabilities_from_eq)
      (simp_all add: result_def full_output_size_sum)
  then have c: "full_activation_probabilities net item =
      concat (map (\<lambda>I. activation_probabilities_from 0 (Suc I) net data []) [0..<length net])"
    by (simp add: full_activation_probabilities_def full_activation_probabilities_into_def
        data_def[symmetric] result_def[symmetric])
       (simp add: result_def full_output_size_sum)
  have l: "\<forall>I < length net. length (activation_probabilities_from 0 (Suc I) net data [])
      = l_output_size (net ! I)"
    using activation_probabilities_from_length[OF assms, of 0 "Suc _" data "[]"] by simp
  have "map (\<lambda>I. length (activation_probabilities_from 0 (Suc I) net data [])) [0..<length net]
      = map (\<lambda>I. l_output_size (net ! I)) [0..<length net]"
    using l by simp
  also have "\<dots> = map l_output_size net" by (rule nth_equalityI) simp_all
  finally have len: "length (full_activation_probabilities net item) = full_output_size net"
    by (simp add: c length_concat comp_def full_output_size_sum)
  have last: "net \<noteq> [] \<longrightarrow> activation_probabilities net item =
      activation_probabilities_from 0 (Suc (length net - 1)) net data []"
    by (auto simp: activation_probabilities_def activation_probabilities_into_def data_def
        intro: activation_probabilities_from_result)
  show ?thesis using c l len last by (simp add: data_def)
qed

theorem full_activation_probabilities_concat_witness:
  "full_activation_probabilities
     [example_rbm 2 2 1 False True 0, example_rbm 2 3 1 False True 1] [1, 2] = [3, 3, 7, 7, 7] \<and>
   full_output_size [example_rbm 2 2 1 False True 0, example_rbm 2 3 1 False True 1] = 5"
  using full_activation_probabilities_concat
    [of "[example_rbm 2 2 1 False True 0, example_rbm 2 3 1 False True 1]" "[1, 2]"]
  by (simp add: example_rbm_shape full_output_size_def example_rbm_fields
      activation_probabilities_from_last activation_probabilities_from_step numeral_eq_Suc)

subsection \<open>Classifier training\<close>

lemma fold_add_activation_probabilities:
  "fold (\<lambda>sample result. add_activation_probabilities d net result sample) training_data acc =
     acc @ map (\<lambda>sample. if concatenate d then full_activation_probabilities net sample
                          else activation_probabilities net sample) training_data"
  by (induction training_data arbitrary: acc)
     (simp_all add: add_activation_probabilities_def full_activation_probabilities_def
        activation_probabilities_def)

lemma make_problem_eq:
  "make_problem lib d dbn training_data labels scl =
     dbn\<lparr>problem := svm_make_problem lib labels
        (map (\<lambda>sample. if concatenate d then full_activation_probabilities (tuples dbn) sample
                        else activation_probabilities (tuples dbn) sample) training_data) scl\<rparr>"
  by (simp add: make_problem_def fold_add_activation_probabilities)

text \<open>
  Claim C9, amended: when \<^verbatim>\<open>svm::check\<close> rejects the constructed problem and the
  parameters, \<^verbatim>\<open>svm_train\<close> and \<^verbatim>\<open>svm_grid_search\<close> return false; the stored model, the
  model-loaded flag and the layers are as before the call, and the stored problem is the
  problem constructed by the call from the features of its training data.
\<close>

theorem svm_check_failure:
  "(\<not> svm_check lib (problem (make_problem lib d dbn training_data labels (scale d))) parameters \<longrightarrow>
      svm_train lib d dbn training_data labels parameters =
        (False, make_problem lib d dbn training_data labels (scale d))) \<and>
   (\<not> svm_check lib (problem (make_problem lib d dbn training_data labels (scale d)))
        (default_svm_parameters lib) \<longrightarrow>
      svm_grid_search lib d dbn training_data labels =
        (False, make_problem lib d dbn training_data labels (scale d))) \<and>
   svm_model (make_problem lib d dbn training_data labels (scale d)) = svm_model dbn \<and>
   svm_loaded (make_problem lib d dbn training_data labels (scale d)) = svm_loaded dbn \<and>
   tuples (make_problem lib d dbn training_data labels (scale d)) = tuples dbn \<and>
   problem (make_problem lib d dbn training_data labels (scale d)) =
     svm_make_problem lib labels
       (map (\<lambda>sample. if concatenate d then full_activation_probabilities (tuples dbn) sample
                       else activation_probabilities (tuples dbn) sample) training_data) (scale d)"
  by (simp add: svm_train_def svm_grid_search_def Let_def make_problem_eq)

theorem svm_check_failure_witness:
  "svm_train example_svm \<lparr>BatchSize = 1, save_memory = False, concatenate = False, scale = False\<rparr>
     \<lparr>tuples = [example_rbm 2 2 1 False True 0, example_rbm 2 3 1 False True 1],
      svm_model = 7, problem = [], svm_loaded = True\<rparr> [[1, 2]] [1] 0 =
   (False,
     \<lparr>tuples = [example_rbm 2 2 1 False True 0, example_rbm 2 3 1 False True 1],
      svm_model = 7, problem = [(1, [7, 7, 7])], svm_loaded = True\<rparr>)"
  using svm_check_failure
    [of example_svm "\<lparr>BatchSize = 1, save_memory = False, concatenate = False, scale = False\<rparr>"
        "\<lparr>tuples = [example_rbm 2 2 1 False True 0, example_rbm 2 3 1 False True 1],
          svm_model = 7, problem = [], svm_loaded = True\<rparr>" "[[1, 2]]" "[1]" 0]
  by (simp add: example_svm_fields make_problem_eq example_activation[simplified])

text \<open>
  Claim C9 as stated fails: after a rejected call the stored problem is no longer the one
  stored before the call.
\<close>

theorem svm_check_failure_counterexample:
  "fst (svm_train example_svm
          \<lparr>BatchSize = 1, save_memory = False, concatenate = False, scale = False\<rparr>
          \<lparr>tuples = [example_rbm 2 2 1 False True 0, example_rbm 2 3 1 False True 1],
           svm_model = 7, problem = [], svm_loaded = True\<rparr> [[1, 2]] [1] 0) = False \<and>
   problem (snd (svm_train example_svm
          \<lparr>BatchSize = 1, save_memory = False, concatenate = False, scale = False\<rparr>
          \<lparr>tuples = [example_rbm 2 2 1 False True 0, example_rbm 2 3 1 False True 1],
           svm_model = 7, problem = [], svm_loaded = True\<rparr> [[1, 2]] [1] 0)) \<noteq>
   problem \<lparr>tuples = [example_rbm 2 2 1 False True 0, example_rbm 2 3 1 False True 1],
            svm_model = 7, problem = [], svm_loaded = True\<rparr> \<and>
   svm_grid_search
     (example_svm\<lparr>default_svm_parameters := 0\<rparr>)
     \<lparr>BatchSize = 1, save_memory = False, concatenate = False, scale = False\<rparr>
     \<lparr>tuples = [example_rbm 2 2 1 False True 0, example_rbm 2 3 1 False True 1],
      svm_model = 7, problem = [], svm_loaded = True\<rparr> [[1, 2]] [1] =
   (False,
     \<lparr>tuples = [example_rbm 2 2 1 False True 0, example_rbm 2 3 1 False True 1],
      svm_model = 7, problem = [(1, [7, 7, 7])], svm_loaded = True\<rparr>)"
  by (simp add: svm_train_def svm_grid_search_def Let_def example_svm_fields make_problem_eq
      example_activation[simplified] example_svm_def)

subsection \<open>The two pretraining modes\<close>

lemma activation_probabilities_from_snoc:
  "J < I \<Longrightarrow> activation_probabilities_from J (Suc I) net v r =
     activate_one (net ! I) (state (net ! I)) (activation_probabilities_from J I net v r')"
proof (induction "I - J" arbitrary: J v)
  case 0
  then show ?case by simp
next
  case (Suc n)
  obtain I' where I': "I = Suc I'" using Suc.prems by (cases I) auto
  show ?case
  proof (cases "Suc J = I")
    case True
    then have "activation_probabilities_from J I net v r' =
        activate_one (net ! J) (state (net ! J)) v"
      using activation_probabilities_from_last[of J net v r'] by simp
    moreover have "activation_probabilities_from J (Suc I) net v r =
        activate_one (net ! I) (state (net ! I)) (activate_one (net ! J) (state (net ! J)) v)"
      using Suc.prems True activation_probabilities_from_last[of I net _ r]
      by (simp add: activation_probabilities_from_step[of J I])
    ultimately show ?thesis by simp
  next
    case False
    then have lt: "Suc J < I" using Suc.prems by simp
    have "activation_probabilities_from J (Suc I) net v r =
        activation_probabilities_from (Suc J) (Suc I) net
          (activate_one (net ! J) (state (net ! J)) v) r"
      using Suc.prems by (simp add: activation_probabilities_from_step)
    also have "\<dots> = activate_one (net ! I) (state (net ! I))
        (activation_probabilities_from (Suc J) I net (activate_one (net ! J) (state (net ! J)) v) r')"
      using Suc.hyps(2) lt by (intro Suc.hyps(1)) auto
    also have "activation_probabilities_from (Suc J) I net
          (activate_one (net ! J) (state (net ! J)) v) r' =
        activation_probabilities_from J I net v r'"
      using lt unfolding I' by (simp add: activation_probabilities_from_step)
    finally show ?thesis .
  qed
qed

lemma train_next_update:
  "train_next J (net[I := (net ! I)\<lparr>state := q\<rparr>]) = train_next J net"
proof -
  have "pretrain_last (net[I := (net ! I)\<lparr>state := q\<rparr>] ! K) = pretrain_last (net ! K)" for K
    by (cases "I < length net"; cases "K = I") (simp_all add: list_update_beyond)
  then show ?thesis by (simp add: train_next_def)
qed

lemma same_learning_rule_state [simp]:
  "same_learning_rule (l\<lparr>state := q\<rparr>) = same_learning_rule l"
proof -
  have "trainer_epochs (l\<lparr>state := q\<rparr>) input epoch max_epochs p =
      trainer_epochs l input epoch max_epochs p" for input epoch max_epochs p
  proof (induction l input epoch max_epochs p rule: trainer_epochs.induct)
    case (1 rbm input epoch max_epochs p)
    then show ?case
      by (subst trainer_epochs.simps, subst (2) trainer_epochs.simps) simp
  qed
  then show ?thesis by (simp add: same_learning_rule_def)
qed

lemma modes_comparable_update:
  assumes "modes_comparable d net n"
  shows "modes_comparable d (net[I := (net ! I)\<lparr>state := q\<rparr>]) n"
proof -
  define net1 where "net1 = net[I := (net ! I)\<lparr>state := q\<rparr>]"
  have l: "length net1 = length net" by (simp add: net1_def)
  have nth: "net1 ! J = (if J = I then (net ! J)\<lparr>state := q\<rparr> else net ! J)" if "J < length net" for J
    using that by (simp add: net1_def nth_list_update)
  have tn: "train_next J net1 = train_next J net" for J
    unfolding net1_def by (rule train_next_update)
  have ig: "batch_layer_ignore J net1 = batch_layer_ignore J net" for J
    unfolding net1_def by (rule batch_layer_ignore_update)
  have ne: "net \<noteq> []" using assms by (simp add: modes_comparable_def)
  then have z: "0 < length net" by simp
  have "convert_input (net1 ! 0) = convert_input (net ! 0)"
    "convert_sample (net1 ! 0) = convert_sample (net ! 0)"
    using nth[OF z] by auto
  moreover have "same_learning_rule (net1 ! J) = same_learning_rule (net ! J)"
    "get_batch_size (net1 ! J) = get_batch_size (net ! J)" if "J < length net" for J
    using nth[OF that] by auto
  moreover have "net1 \<noteq> []" using ne l by auto
  ultimately show ?thesis
    using assms unfolding modes_comparable_def net1_def[symmetric] l tn ig
    by simp
qed

lemma pretrain_layer_step:
  "I < length net \<Longrightarrow>
   pretrain_layer I net watcher ra input max_epochs =
     (if train_next (I + 1)
           (net[I := (net ! I)\<lparr>state := train (net ! I) (state (net ! I)) input max_epochs\<rparr>])
      then pretrain_layer (I + 1)
             (net[I := (net ! I)\<lparr>state := train (net ! I) (state (net ! I)) input max_epochs\<rparr>])
             (watcher @ [Pretrain_layer I (fast_distance ra input)]) True
             (map (activate_one (net ! I) (train (net ! I) (state (net ! I)) input max_epochs)) input)
             max_epochs
      else (net[I := (net ! I)\<lparr>state := train (net ! I) (state (net ! I)) input max_epochs\<rparr>],
            watcher @ [Pretrain_layer I (fast_distance ra input)]))"
  by (subst pretrain_layer.simps) (simp add: Let_def)

lemma pretrain_modes_from:
  "0 < I \<Longrightarrow> I \<le> length net \<Longrightarrow> modes_comparable d net (length data) \<Longrightarrow>
   \<exists>wb. pretrain_layer_batch d I net w' data e =
      Some ((if train_next I net then
               fst (pretrain_layer I net w ra
                      (map (\<lambda>v. activation_probabilities_from 0 I net v [])
                         (convert_input (net ! 0) data)) e)
             else net), wb)"
proof (induction "length net - I" arbitrary: I net w w' ra)
  case 0
  then have I: "I = length net" by simp
  have "net \<noteq> []" using "0.prems"(3) by (simp add: modes_comparable_def)
  then have "length net - 1 < I" using I by (cases net) simp_all
  then have "\<not> train_next I net" by (simp add: train_next_def)
  then show ?case using "0.prems"(1) I by (simp add: pretrain_layer_batch_stop)
next
  case (Suc n)
  then have I: "I < length net" by simp
  note mc = Suc.prems(3)
  have agree: "train_next I net \<longleftrightarrow> \<not> batch_layer_ignore I net"
    using mc Suc.prems(1) I by (simp add: modes_comparable_def)
  show ?case
  proof (cases "train_next I net")
    case False
    then have ig: "batch_layer_ignore I net" using agree by simp
    have "\<not> I < length net - 1" using False by (auto simp: train_next_def)
    then have "length net \<le> I + 1" using I by simp
    then have "pretrain_layer_batch d (I + 1) net w' data e = Some (net, w')"
      by (intro pretrain_layer_batch_stop) simp_all
    then show ?thesis
      using False pretrain_layer_batch_skip[OF Suc.prems(1) ig, of d w' data e] by simp
  next
    case True
    then have nig: "\<not> batch_layer_ignore I net" using agree by simp
    define rbm where "rbm = net ! I"
    define bbs where "bbs = size_t_mul (BatchSize d) (get_batch_size rbm)"
    define acts where "acts = map (\<lambda>v. activation_probabilities_from 0 I net v [])
        (convert_input (net ! 0) data)"
    have slr: "same_learning_rule rbm" using mc I by (simp add: modes_comparable_def rbm_def)
    have bp: "0 < bbs" using mc I by (simp add: modes_comparable_def rbm_def bbs_def)
    have dv: "bbs dvd length data"
      using mc I Suc.prems(1) by (simp add: modes_comparable_def rbm_def bbs_def)
    have cv: "\<forall>xs. convert_input (net ! 0) xs = map (convert_sample (net ! 0)) xs"
      using mc by (simp add: modes_comparable_def)
    have ts: "\<forall>p xs ys. train_sub (net ! I) p (xs @ ys) = train_sub (net ! I) (train_sub (net ! I) p xs) ys"
      "\<forall>p. train_sub (net ! I) p [] = p"
      using slr by (simp_all add: same_learning_rule_def rbm_def)
    have "\<exists>buf'. epochs I net bbs data 0 e
          (init_training rbm (state rbm) data, prepare_output (net ! (I - 1)) bbs False 0) =
        Some (trainer_epochs (net ! I)
               (map (\<lambda>v. activation_probabilities_from 0 I net v []) (convert_input (net ! 0) data))
               0 e (fst (init_training rbm (state rbm) data,
                         prepare_output (net ! (I - 1)) bbs False 0)), buf') \<and> length buf' = bbs"
      using ts cv bp Suc.prems(1) dv by (intro epochs_eq) (simp_all add: prepare_output_def)
    then obtain buf' where ep: "epochs I net bbs data 0 e
          (init_training rbm (state rbm) data, prepare_output (net ! (I - 1)) bbs False 0) =
        Some (trainer_epochs rbm acts 0 e (init_training rbm (state rbm) data), buf')"
      by (auto simp: acts_def rbm_def)
    define q where "q = train rbm (state rbm) acts e"
    have q: "finalize_training rbm (trainer_epochs rbm acts 0 e (init_training rbm (state rbm) data)) = q"
      using slr unfolding q_def same_learning_rule_def by metis
    define net1 where "net1 = net[I := rbm\<lparr>state := q\<rparr>]"
    have l1: "length net1 = length net" by (simp add: net1_def)
    have mc1: "modes_comparable d net1 (length data)"
      unfolding net1_def rbm_def using mc by (rule modes_comparable_update)
    have batch: "pretrain_layer_batch d I net w' data e =
        pretrain_layer_batch d (Suc I) net1 (w' @ [Pretrain_layer I 0]) data e"
      using ep q
      by (simp add: pretrain_layer_batch_train[OF Suc.prems(1) I nig] rbm_def[symmetric]
          bbs_def[symmetric] net1_def)
    have n0: "net1 ! 0 = net ! 0" using Suc.prems(1) by (simp add: net1_def)
    have nI: "net1 ! I = rbm\<lparr>state := q\<rparr>" using I by (simp add: net1_def)
    have below: "activation_probabilities_from 0 I net1 v [] =
        activation_probabilities_from 0 I net v []" for v
      by (rule activation_probabilities_from_cong) (simp add: net1_def)
    have acts1: "map (\<lambda>v. activation_probabilities_from 0 (Suc I) net1 v [])
          (convert_input (net1 ! 0) data) = map (activate_one rbm q) acts"
      using Suc.prems(1)
      by (simp add: activation_probabilities_from_snoc[of 0 I net1 _ "[]" "[]"] below n0 nI acts_def)
    have full: "pretrain_layer I net w ra acts e =
        (if train_next (Suc I) net1
         then pretrain_layer (Suc I) net1 (w @ [Pretrain_layer I (fast_distance ra acts)]) True
                (map (activate_one rbm q) acts) e
         else (net1, w @ [Pretrain_layer I (fast_distance ra acts)]))"
      using pretrain_layer_step[OF I, of w ra acts e]
      by (simp add: rbm_def[symmetric] q_def[symmetric] net1_def[symmetric])
    have "\<exists>wb. pretrain_layer_batch d (Suc I) net1 (w' @ [Pretrain_layer I 0]) data e =
        Some ((if train_next (Suc I) net1 then
                 fst (pretrain_layer (Suc I) net1 (w @ [Pretrain_layer I (fast_distance ra acts)])
                        True (map (\<lambda>v. activation_probabilities_from 0 (Suc I) net1 v [])
                           (convert_input (net1 ! 0) data)) e)
               else net1), wb)"
      using Suc.hyps(2) I l1 mc1 by (intro Suc.hyps(1)) auto
    then show ?thesis
      unfolding batch acts1 using True full by (auto simp: acts_def)
  qed
qed

lemma modes_comparable_save_memory [simp]:
  "modes_comparable (d\<lparr>save_memory := b\<rparr>) net n = modes_comparable d net n"
  by (simp add: modes_comparable_def)

text \<open>
  Where the two modes agree: on a network on which both modes train the same layers, whose
  layers have the same learning rule in both modes, whose layer 0 converts the samples one
  by one, and whose big batches are not empty and, above layer 0, all full,
  \<^verbatim>\<open>pretrain\<close> returns in the batch mode and in the full mode, and the final parameters of
  every layer are equal.
\<close>

lemma pretrain_modes_agree:
  assumes "modes_comparable d net (length data)"
  shows "\<exists>net' wb wf.
           pretrain (d\<lparr>save_memory := True\<rparr>) False ra net data max_epochs = Some (net', wb) \<and>
           pretrain (d\<lparr>save_memory := False\<rparr>) False ra net data max_epochs = Some (net', wf)"
proof -
  define rbm where "rbm = net ! 0"
  define conv where "conv = convert_input rbm data"
  define bbs where "bbs = size_t_mul (BatchSize d) (get_batch_size rbm)"
  define q where "q = train rbm (state rbm) conv max_epochs"
  define net1 where "net1 = net[0 := rbm\<lparr>state := q\<rparr>]"
  define w0 where "w0 = [Pretraining_begin max_epochs]"
  have ne: "net \<noteq> []" using assms by (simp add: modes_comparable_def)
  then have z: "0 < length net" by simp
  have slr: "same_learning_rule rbm"
    using assms z unfolding modes_comparable_def rbm_def by metis
  have bp: "0 < bbs"
    using assms z unfolding modes_comparable_def rbm_def bbs_def by metis
  have cv: "\<forall>xs. convert_input rbm xs = map (convert_sample rbm) xs"
    using assms by (simp add: modes_comparable_def rbm_def)
  have ts: "\<forall>p xs ys. train_sub rbm p (xs @ ys) = train_sub rbm (train_sub rbm p xs) ys"
    "\<forall>p. train_sub rbm p [] = p"
    using slr by (simp_all add: same_learning_rule_def)
  have ep: "epochs_0 rbm bbs data 0 max_epochs (init_training rbm (state rbm) data) =
      Some (trainer_epochs rbm conv 0 max_epochs (init_training rbm (state rbm) data))"
    unfolding conv_def using ts cv bp by (rule epochs_0_eq)
  have q: "finalize_training rbm
      (trainer_epochs rbm conv 0 max_epochs (init_training rbm (state rbm) data)) = q"
    using slr unfolding q_def same_learning_rule_def by metis
  have batch: "pretrain_layer_batch (d\<lparr>save_memory := True\<rparr>) 0 net w0 data max_epochs =
      pretrain_layer_batch (d\<lparr>save_memory := True\<rparr>) 1 net1 (w0 @ [Pretrain_layer 0 0]) data max_epochs"
    using ep q
    by (simp add: pretrain_layer_batch_first rbm_def[symmetric] bbs_def[symmetric] net1_def)
  have full: "pretrain_layer 0 net w0 ra conv max_epochs =
      (if train_next 1 net1
       then pretrain_layer 1 net1 (w0 @ [Pretrain_layer 0 (fast_distance ra conv)]) True
              (map (activate_one rbm q) conv) max_epochs
       else (net1, w0 @ [Pretrain_layer 0 (fast_distance ra conv)]))"
    using pretrain_layer_step[OF z, of w0 ra conv max_epochs]
    by (simp add: rbm_def[symmetric] q_def[symmetric] net1_def[symmetric])
  have l1: "length net1 = length net" by (simp add: net1_def)
  have n0: "net1 ! 0 = rbm\<lparr>state := q\<rparr>" using z by (simp add: net1_def)
  have mc1: "modes_comparable (d\<lparr>save_memory := True\<rparr>) net1 (length data)"
    unfolding net1_def rbm_def using assms by (simp add: modes_comparable_update)
  have acts1: "map (\<lambda>v. activation_probabilities_from 0 1 net1 v [])
        (convert_input (net1 ! 0) data) = map (activate_one rbm q) conv"
    using activation_probabilities_from_last[of 0 net1 _ "[]"] by (simp add: n0 conv_def)
  have "\<exists>wb. pretrain_layer_batch (d\<lparr>save_memory := True\<rparr>) 1 net1 (w0 @ [Pretrain_layer 0 0])
        data max_epochs =
      Some ((if train_next 1 net1 then
               fst (pretrain_layer 1 net1 (w0 @ [Pretrain_layer 0 (fast_distance ra conv)])
                      True (map (\<lambda>v. activation_probabilities_from 0 1 net1 v [])
                         (convert_input (net1 ! 0) data)) max_epochs)
             else net1), wb)"
  proof -
    have "1 \<le> length net1" using z l1 by (cases net) simp_all
    then show ?thesis using mc1 by (intro pretrain_modes_from) simp_all
  qed
  then obtain wb where b: "pretrain_layer_batch (d\<lparr>save_memory := True\<rparr>) 0 net w0 data max_epochs =
      Some (fst (pretrain_layer 0 net w0 ra conv max_epochs), wb)"
    unfolding batch acts1 full by auto
  have "pretrain (d\<lparr>save_memory := True\<rparr>) False ra net data max_epochs =
      Some (fst (pretrain_layer 0 net w0 ra conv max_epochs), wb @ [Pretraining_end])"
    using b by (simp add: pretrain_def w0_def Let_def)
  moreover have "pretrain (d\<lparr>save_memory := False\<rparr>) False ra net data max_epochs =
      Some (fst (pretrain_layer 0 net w0 ra conv max_epochs),
            snd (pretrain_layer 0 net w0 ra conv max_epochs) @ [Pretraining_end])"
    by (simp add: pretrain_def w0_def input_converter_def conv_def rbm_def split_beta Let_def)
  ultimately show ?thesis by blast
qed

lemma pretrain_modes_agree_example:
  "\<exists>wb. pretrain \<lparr>BatchSize = 1, save_memory = True, concatenate = False, scale = False\<rparr> False True
       [example_rbm 2 2 1 False True 0, example_rbm 2 2 2 False True 0] [[1, 2], [0, 1]] 2 =
     Some ([example_rbm 2 2 1 False True 4, example_rbm 2 2 2 False True 4], wb)"
proof -
  define d where "d = \<lparr>BatchSize = 1, save_memory = False, concatenate = False, scale = False\<rparr>"
  define net where "net = [example_rbm 2 2 1 False True 0, example_rbm 2 2 2 False True 0]"
  have mc: "modes_comparable d net (length [[1, 2], [0, 1 :: real]])"
    by (auto simp: modes_comparable_def d_def net_def train_next_def batch_layer_ignore_def
        example_rbm_fields(1-5) example_rbm_convert example_rbm_learning_rule less_Suc_eq
        numeral_2_eq_2)
  have full: "pretrain (d\<lparr>save_memory := False\<rparr>) False True net [[1, 2], [0, 1]] 2 =
      Some ([example_rbm 2 2 1 False True 4, example_rbm 2 2 2 False True 4],
            [Pretraining_begin 2, Pretrain_layer 0 2, Pretrain_layer 1 2, Pretraining_end])"
    by (simp add: pretrain_def d_def net_def input_converter_def pretrain_layer_step train_next_def
        example_rbm_fields example_rbm_state_update Let_def)
  from pretrain_modes_agree[OF mc, of True 2] full
  have "\<exists>wb. pretrain (d\<lparr>save_memory := True\<rparr>) False True net [[1, 2], [0, 1]] 2 =
      Some ([example_rbm 2 2 1 False True 4, example_rbm 2 2 2 False True 4], wb)"
    by auto
  then show ?thesis by (simp add: d_def net_def)
qed

text \<open>
  The two modes do not select the same layers: a layer in the middle of the network whose
  \<^verbatim>\<open>pretrain_last()\<close> is false is trained by the full mode and skipped by the batch mode;
  the layer above it, trained by both modes, then sees different inputs.
\<close>

lemma pretrain_modes_selection:
  "same_learning_rule (example_sum_rbm 2 2 1 False True 0) \<and>
   same_learning_rule (example_sum_rbm 2 2 1 False False 0) \<and>
   map_option fst
     (pretrain \<lparr>BatchSize = 1, save_memory = True, concatenate = False, scale = False\<rparr> False True
        [example_sum_rbm 2 2 1 False True 0, example_sum_rbm 2 2 1 False False 0,
         example_sum_rbm 2 2 1 False True 0] [[1, 2]] 1) =
     Some [example_sum_rbm 2 2 1 False True 3, example_sum_rbm 2 2 1 False False 0,
           example_sum_rbm 2 2 1 False True 24] \<and>
   map_option fst
     (pretrain \<lparr>BatchSize = 1, save_memory = False, concatenate = False, scale = False\<rparr> False True
        [example_sum_rbm 2 2 1 False True 0, example_sum_rbm 2 2 1 False False 0,
         example_sum_rbm 2 2 1 False True 0] [[1, 2]] 1) =
     Some [example_sum_rbm 2 2 1 False True 3, example_sum_rbm 2 2 1 False False 12,
           example_sum_rbm 2 2 1 False True 48]"
proof -
  define d where "d = \<lparr>BatchSize = 1, save_memory = True, concatenate = False, scale = False\<rparr>"
  define net where "net = [example_sum_rbm 2 2 1 False True 0, example_sum_rbm 2 2 1 False False 0,
         example_sum_rbm 2 2 1 False True 0]"
  define net1 where "net1 = [example_sum_rbm 2 2 1 False True 3, example_sum_rbm 2 2 1 False False 0,
         example_sum_rbm 2 2 1 False True 0]"
  define net2 where "net2 = [example_sum_rbm 2 2 1 False True 3, example_sum_rbm 2 2 1 False False 0,
         example_sum_rbm 2 2 1 False True 24]"
  define w where "w = [Pretraining_begin 1, Pretrain_layer 0 0]"
  have ts: "\<forall>p xs ys. train_sub (example_sum_rbm m n b pooling plast p0) p (xs @ ys) =
      train_sub (example_sum_rbm m n b pooling plast p0)
        (train_sub (example_sum_rbm m n b pooling plast p0) p xs) ys"
    "\<forall>p. train_sub (example_sum_rbm m n b pooling plast p0) p [] = p"
    "\<forall>xs. convert_input (example_sum_rbm m n b pooling plast p0) xs =
       map (convert_sample (example_sum_rbm m n b pooling plast p0)) xs"
    for m n b pooling plast p0
    by (simp_all add: example_sum_rbm_fields)
  have e0: "epochs_0 (example_sum_rbm 2 2 1 False True 0) 1 [[1, 2]] 0 1 0 = Some 3"
    using epochs_0_eq[OF ts, of 1 2 2 1 False True 0 "[[1, 2]]" 0 1 0]
    by (simp add: example_sum_trainer_epochs example_sum_rbm_fields)
  have s0: "pretrain_layer_batch d 0 net [Pretraining_begin 1] [[1, 2]] 1 =
      pretrain_layer_batch d 1 net1 w [[1, 2]] 1"
    using e0
    by (simp add: pretrain_layer_batch_first d_def net_def net1_def w_def example_sum_rbm_fields
        example_sum_rbm_state_update)
  have s1: "pretrain_layer_batch d 1 net1 w [[1, 2]] 1 = pretrain_layer_batch d 2 net1 w [[1, 2]] 1"
    using pretrain_layer_batch_skip[of 1 net1 d w "[[1, 2]]" 1]
    by (simp add: net1_def batch_layer_ignore_def example_sum_rbm_fields numeral_2_eq_2)
  have acts: "map (\<lambda>v. activation_probabilities_from 0 2 net1 v []) (convert_input (net1 ! 0) [[1, 2]]) =
      [[12, 12]]"
    by (simp add: net1_def example_sum_rbm_fields numeral_2_eq_2
        activation_probabilities_from_step activation_probabilities_from_last)
  have "\<exists>buf'. epochs 2 net1 1 [[1, 2]] 0 1
        (0, prepare_output (net1 ! (2 - 1)) 1 False 0) =
      Some (trainer_epochs (net1 ! 2)
              (map (\<lambda>v. activation_probabilities_from 0 2 net1 v []) (convert_input (net1 ! 0) [[1, 2]]))
              0 1 (fst (0, prepare_output (net1 ! (2 - 1)) 1 False 0)), buf') \<and> length buf' = 1"
    by (intro epochs_eq)
       (simp_all add: net1_def example_sum_rbm_fields prepare_output_def)
  then obtain buf' where e2: "epochs 2 net1 1 [[1, 2]] 0 1
        (0, prepare_output (net1 ! (2 - 1)) 1 False 0) = Some (24, buf')"
    unfolding acts by (auto simp: net1_def example_sum_trainer_epochs)
  have s2: "pretrain_layer_batch d 2 net1 w [[1, 2]] 1 =
      pretrain_layer_batch d 3 net2 (w @ [Pretrain_layer 2 0]) [[1, 2]] 1"
    using e2 pretrain_layer_batch_train[of 2 net1 d w "[[1, 2]]" 1]
    by (simp add: net1_def net2_def d_def batch_layer_ignore_def example_sum_rbm_fields
        example_sum_rbm_state_update)
  have s3: "pretrain_layer_batch d 3 net2 (w @ [Pretrain_layer 2 0]) [[1, 2]] 1 =
      Some (net2, w @ [Pretrain_layer 2 0])"
    by (intro pretrain_layer_batch_stop) (simp_all add: net2_def)
  have batch: "map_option fst (pretrain d False True net [[1, 2]] 1) = Some net2"
    using s0 s1 s2 s3 by (simp add: pretrain_def d_def)
  have full: "map_option fst (pretrain (d\<lparr>save_memory := False\<rparr>) False True net [[1, 2]] 1) =
      Some [example_sum_rbm 2 2 1 False True 3, example_sum_rbm 2 2 1 False False 12,
           example_sum_rbm 2 2 1 False True 48]"
    by (simp add: pretrain_def d_def net_def input_converter_def pretrain_layer_step train_next_def
        example_sum_rbm_fields example_sum_rbm_state_update Let_def numeral_2_eq_2)
  show ?thesis
    using batch full by (simp add: d_def net_def net2_def example_sum_rbm_learning_rule)
qed

text \<open>
  Claim C1: with the same learning rule in every layer, the same number of epochs and the
  same order of the samples, the batch mode and the full mode end with the same
  parameters in every trained layer.  The code does not do this when the last big batch
  of a layer above layer 0 is not full.  For such a layer the trainer is given the whole
  buffer \<^verbatim>\<open>activated_input\<close>, of which only the rows of the current batch have been
  rewritten, where for layer 0 it is given the converted batch alone.  On two layers
  without pooling, both to be pretrained, with three samples and a big batch of two for
  layer 1, the second big batch of layer 1 holds the activation of the third sample and
  the stale activation of the second: layer 1 is trained on four rows in the batch mode
  and on three in the full mode, while layer 0 ends with the same parameters in both.
\<close>

theorem pretrain_partial_batch:
  "same_learning_rule (example_rbm 2 2 1 False True 0) \<and>
   same_learning_rule (example_rbm 2 2 2 False True 0) \<and>
   big_batches 1 [example_rbm 2 2 1 False True 3, example_rbm 2 2 2 False True 0] 2
     [[1, 2], [0, 1], [1, 1]] (0, prepare_output (example_rbm 2 2 1 False True 3) 2 False 0) =
     Some (4, [[5, 5], [4, 4]]) \<and>
   map_option fst
     (pretrain \<lparr>BatchSize = 1, save_memory = True, concatenate = False, scale = False\<rparr> False True
        [example_rbm 2 2 1 False True 0, example_rbm 2 2 2 False True 0]
        [[1, 2], [0, 1], [1, 1]] 1) =
     Some [example_rbm 2 2 1 False True 3, example_rbm 2 2 2 False True 4] \<and>
   map_option fst
     (pretrain \<lparr>BatchSize = 1, save_memory = False, concatenate = False, scale = False\<rparr> False True
        [example_rbm 2 2 1 False True 0, example_rbm 2 2 2 False True 0]
        [[1, 2], [0, 1], [1, 1]] 1) =
     Some [example_rbm 2 2 1 False True 3, example_rbm 2 2 2 False True 3]"
proof -
  define d where "d = \<lparr>BatchSize = 1, save_memory = True, concatenate = False, scale = False\<rparr>"
  define net where "net = [example_rbm 2 2 1 False True 0, example_rbm 2 2 2 False True 0]"
  define net1 where "net1 = [example_rbm 2 2 1 False True 3, example_rbm 2 2 2 False True 0]"
  define net2 where "net2 = [example_rbm 2 2 1 False True 3, example_rbm 2 2 2 False True 4]"
  define data :: "vec list" where "data = [[1, 2], [0, 1], [1, 1]]"
  define w where "w = [Pretraining_begin 1, Pretrain_layer 0 0]"
  have e0: "epochs_0 (example_rbm 2 2 1 False True 0) 1 data 0 1 0 = Some 3"
    using epochs_0_eq[of "example_rbm 2 2 1 False True 0" 1 data 0 1 0]
    by (simp add: example_trainer_epochs example_rbm_fields example_rbm_convert_map data_def)
  have s0: "pretrain_layer_batch d 0 net [Pretraining_begin 1] data 1 =
      pretrain_layer_batch d 1 net1 w data 1"
    using e0
    by (simp add: pretrain_layer_batch_first d_def net_def net1_def w_def example_rbm_fields
        example_rbm_state_update)
  have b: "big_batches 1 net1 2 data (0, prepare_output (net1 ! 0) 2 False 0) =
      Some (4, [[5, 5], [4, 4]])"
    unfolding data_def
    apply (subst big_batches.simps)
    apply (simp add: Let_def net1_def example_rbm_fields prepare_output_def prepare_one_output_def
        activation_probabilities_from_last numeral_2_eq_2)
    apply (subst big_batches.simps)
    apply (simp add: Let_def net1_def example_rbm_fields 
        activation_probabilities_from_last numeral_2_eq_2)
    apply (subst big_batches.simps)
    apply simp
    done
  have e1: "epochs 1 net1 2 data 0 1 (0, prepare_output (net1 ! 0) 2 False 0) =
      Some (4, [[5, 5], [4, 4]])"
    apply (subst epochs.simps)
    apply (simp add: b[unfolded net1_def, simplified] net1_def example_rbm_fields)
    apply (subst epochs.simps)
    apply simp
    done
  have s1: "pretrain_layer_batch d 1 net1 w data 1 =
      pretrain_layer_batch d 2 net2 (w @ [Pretrain_layer 1 0]) data 1"
    using e1 pretrain_layer_batch_train[of 1 net1 d w data 1]
    by (simp add: net1_def net2_def d_def batch_layer_ignore_def example_rbm_fields
        example_rbm_state_update numeral_2_eq_2)
  have s2: "pretrain_layer_batch d 2 net2 (w @ [Pretrain_layer 1 0]) data 1 =
      Some (net2, w @ [Pretrain_layer 1 0])"
    by (intro pretrain_layer_batch_stop) (simp_all add: net2_def)
  have batch: "map_option fst (pretrain d False True net data 1) = Some net2"
    using s0 s1 s2 by (simp add: pretrain_def d_def)
  have full: "map_option fst (pretrain (d\<lparr>save_memory := False\<rparr>) False True net data 1) =
      Some [example_rbm 2 2 1 False True 3, example_rbm 2 2 2 False True 3]"
    by (simp add: pretrain_def d_def net_def data_def input_converter_def pretrain_layer_step
        train_next_def example_rbm_fields example_rbm_state_update Let_def numeral_3_eq_3)
  have buf: "big_batches 1 [example_rbm 2 2 1 False True 3, example_rbm 2 2 2 False True 0] 2
     [[1, 2], [0, 1], [1, 1]] (0, prepare_output (example_rbm 2 2 1 False True 3) 2 False 0) =
     Some (4, [[5, 5], [4, 4]])"
    using b by (simp add: net1_def data_def)
  show ?thesis
    using batch full buf
    by (simp add: d_def net_def net2_def data_def example_rbm_learning_rule)
qed

end
